theory Spec2Isabelle
  imports Complex_Main "HOL-Library.Sublist"
begin

section \<open>Python values\<close>

text \<open>
  The program is dynamically typed: the plan is whatever \<^verbatim>\<open>eval\<close> makes of the
  model's answer, and the program reads it with subscripts, loops and f-strings. The
  values are those a JSON-shaped Python expression denotes (\<^verbatim>\<open>None\<close>, booleans,
  integers, strings, lists, dictionaries with string keys), together with the two
  driver values the program stores beside them: the identifier \<^verbatim>\<open>insert_one\<close>
  returns and the time stamp of \<^verbatim>\<open>datetime.datetime.now()\<close>. A dictionary is an
  association list in insertion order, as Python keeps it.
\<close>

datatype pyval =
    PNone
  | PBool bool
  | PInt int
  | PStr string
  | PList "pyval list"
  | PDict "(string \<times> pyval) list"
  | PObjectId nat
  | PDatetime int

text \<open>
  Exceptions. All of them are subclasses of \<^verbatim>\<open>Exception\<close>, so the handler of
  \<^verbatim>\<open>main\<close> catches each. \<open>Raised\<close> is an exception of a library the program calls
  (the hosted model, \<^verbatim>\<open>eval\<close>, the video search), with its message. What
  \<^verbatim>\<open>except Exception\<close> lets through (\<^verbatim>\<open>KeyboardInterrupt\<close>, \<^verbatim>\<open>SystemExit\<close>) is
  outside the model.
\<close>

datatype exn =
    KeyError string
  | TypeError
  | IndexError
  | DuplicateKeyError
  | WriteError
  | Raised string

subsection \<open>Dictionaries\<close>

fun dict_get :: "(string \<times> pyval) list \<Rightarrow> string \<Rightarrow> pyval option" where
  "dict_get [] k = None"
| "dict_get ((k', v) # kvs) k = (if k' = k then Some v else dict_get kvs k)"

text \<open>Assignment to a key keeps the key's place if it is there, and appends otherwise.\<close>

fun dict_set :: "(string \<times> pyval) list \<Rightarrow> string \<Rightarrow> pyval \<Rightarrow> (string \<times> pyval) list" where
  "dict_set [] k v = [(k, v)]"
| "dict_set ((k', v') # kvs) k v =
     (if k' = k then (k, v) # kvs else (k', v') # dict_set kvs k v)"

subsection \<open>The operations the program applies to values\<close>

text \<open>\<^verbatim>\<open>obj['key']\<close> with a string key: only a dictionary answers, with KeyError for
  a missing key; a list or a string wants an integer index and every other value is not
  subscriptable, both TypeError.\<close>

fun subscript_str :: "pyval \<Rightarrow> string \<Rightarrow> exn + pyval" where
  "subscript_str (PDict kvs) k =
     (case dict_get kvs k of None \<Rightarrow> Inl (KeyError k) | Some v \<Rightarrow> Inr v)"
| "subscript_str _ k = Inl TypeError"

text \<open>\<^verbatim>\<open>obj[0]\<close>: the first element of a list, the first character of a string
  (IndexError when empty); a dictionary with string keys has no key 0.\<close>

fun subscript_0 :: "pyval \<Rightarrow> exn + pyval" where
  "subscript_0 (PList []) = Inl IndexError"
| "subscript_0 (PList (x # xs)) = Inr x"
| "subscript_0 (PStr []) = Inl IndexError"
| "subscript_0 (PStr (c # cs)) = Inr (PStr [c])"
| "subscript_0 (PDict kvs) = Inl (KeyError ''0'')"
| "subscript_0 _ = Inl TypeError"

text \<open>\<^verbatim>\<open>obj['key'] = v\<close>: item assignment with a string key.\<close>

fun setitem_str :: "pyval \<Rightarrow> string \<Rightarrow> pyval \<Rightarrow> exn + pyval" where
  "setitem_str (PDict kvs) k v = Inr (PDict (dict_set kvs k v))"
| "setitem_str _ k v = Inl TypeError"

text \<open>\<^verbatim>\<open>for x in obj\<close>: the elements of a list, the keys of a dictionary, the
  characters of a string; nothing else is iterable.\<close>

fun py_iter :: "pyval \<Rightarrow> exn + pyval list" where
  "py_iter (PList xs) = Inr xs"
| "py_iter (PDict kvs) = Inr (map (\<lambda>kv. PStr (fst kv)) kvs)"
| "py_iter (PStr s) = Inr (map (\<lambda>c. PStr [c]) s)"
| "py_iter _ = Inl TypeError"

fun py_len :: "pyval \<Rightarrow> exn + nat" where
  "py_len (PList xs) = Inr (length xs)"
| "py_len (PDict kvs) = Inr (length kvs)"
| "py_len (PStr s) = Inr (length s)"
| "py_len _ = Inl TypeError"

text \<open>Truth value, as \<^verbatim>\<open>if obj:\<close> tests it.\<close>

fun truthy :: "pyval \<Rightarrow> bool" where
  "truthy PNone = False"
| "truthy (PBool b) = b"
| "truthy (PInt i) = (i \<noteq> 0)"
| "truthy (PStr s) = (s \<noteq> [])"
| "truthy (PList xs) = (xs \<noteq> [])"
| "truthy (PDict kvs) = (kvs \<noteq> [])"
| "truthy (PObjectId n) = True"
| "truthy (PDatetime t) = True"

text \<open>\<^verbatim>\<open>{**obj, ...}\<close> needs a mapping.\<close>

fun as_mapping :: "pyval \<Rightarrow> exn + (string \<times> pyval) list" where
  "as_mapping (PDict kvs) = Inr kvs"
| "as_mapping _ = Inl TypeError"

subsection \<open>Text\<close>

fun digit_char :: "nat \<Rightarrow> char" where
  "digit_char n = char_of (48 + n)"

function show_nat :: "nat \<Rightarrow> string" where
  "show_nat n = (if n < 10 then [digit_char n] else show_nat (n div 10) @ [digit_char (n mod 10)])"
  by pat_completeness auto
termination
  by (relation "measure id") auto

definition show_int :: "int \<Rightarrow> string" where
  "show_int i = (if i < 0 then CHR ''-'' # show_nat (nat (- i)) else show_nat (nat i))"

text \<open>
  What an f-string puts for \<^verbatim>\<open>{v}\<close>: the string itself, the decimal digits of an
  integer, \<^verbatim>\<open>None\<close>, \<^verbatim>\<open>True\<close>, \<^verbatim>\<open>False\<close>. The text of every other value (the
  \<^verbatim>\<open>repr\<close> of a list or dictionary, of an identifier or a time stamp) is the
  parameter \<open>other\<close>: no property below depends on it.
\<close>

fun py_format :: "(pyval \<Rightarrow> string) \<Rightarrow> pyval \<Rightarrow> string" where
  "py_format other (PStr s) = s"
| "py_format other (PInt i) = show_int i"
| "py_format other (PBool b) = (if b then ''True'' else ''False'')"
| "py_format other PNone = ''None''"
| "py_format other v = other v"

text \<open>
  \<^verbatim>\<open>s.replace(old, new)\<close>: the occurrences of \<open>old\<close> are found from the left and
  do not overlap; with an empty \<open>old\<close>, \<open>new\<close> goes before every character and at
  the end.
\<close>

function replace :: "string \<Rightarrow> string \<Rightarrow> string \<Rightarrow> string" where
  "replace s old new =
     (if old = [] then new @ concat (map (\<lambda>c. c # new) s)
      else if s = [] then []
      else if prefix old s then new @ replace (drop (length old) s) old new
      else hd s # replace (tl s) old new)"
  by pat_completeness auto
termination
  by (relation "measure (\<lambda>(s, old, new). length s)") (auto simp: neq_Nil_conv)

section \<open>The world the program runs in\<close>

text \<open>The variables \<^verbatim>\<open>chain.invoke\<close> receives (source lines 63 to 69).\<close>

record prompt_vars =
  pv_subject :: string
  pv_current_level :: string
  pv_target_level :: string
  pv_hours_per_week :: int
  pv_weeks :: int

text \<open>
  The services the program calls, which it neither defines nor controls:
  \<^item> \<open>llm_reply n vars\<close>: the text (\<^verbatim>\<open>response.content\<close>) the hosted model gives
    to the \<open>n\<close>-th call, or the exception the call raises (the model samples at
    temperature 0.7, so the answer depends on the call, not only on \<open>vars\<close>);
  \<^item> \<open>evaluate\<close>: the built-in \<^verbatim>\<open>eval\<close>, taken as a function of the text alone
    (an expression that reads or changes the state of the program is outside the
    model);
  \<^item> \<open>search_reply n query\<close>: what
    \<^verbatim>\<open>YoutubeSearch(query, max_results=1).to_dict()\<close> gives to the \<open>n\<close>-th search,
    or the exception it raises;
  \<^item> \<open>clock\<close>: the value of \<^verbatim>\<open>datetime.datetime.now()\<close>;
  \<^item> \<open>repr_other\<close>: the text of the values \<open>py_format\<close> leaves open.
\<close>

record env =
  llm_reply :: "nat \<Rightarrow> prompt_vars \<Rightarrow> exn + string"
  evaluate :: "string \<Rightarrow> exn + pyval"
  search_reply :: "nat \<Rightarrow> string \<Rightarrow> exn + pyval"
  clock :: int
  repr_other :: "pyval \<Rightarrow> string"

datatype banner = Success | Error exn

text \<open>
  The state: the collection \<^verbatim>\<open>plans\<close> of the document store with the counter its
  driver makes identifiers from, the two entries of \<^verbatim>\<open>st.session_state\<close> (\<open>None\<close>
  while the key is not in the session), the calls made so far to the model and to
  the video search, and the banner the last run of the handler showed.
\<close>

record world =
  docs :: "pyval list"
  next_oid :: nat
  session_plan :: "pyval option"
  session_progress :: "(pyval \<Rightarrow> bool option) option"
  invoked :: "prompt_vars list"
  searched :: "string list"
  shown :: "banner option"

section \<open>Plan generator (source lines 35 to 71)\<close>

definition strip_fences :: "string \<Rightarrow> string" where
  "strip_fences content = replace (replace content ''```json'' '''') ''```'' ''''"

definition generate_study_plan ::
  "env \<Rightarrow> string \<Rightarrow> string \<Rightarrow> string \<Rightarrow> int \<Rightarrow> world \<Rightarrow> (exn + pyval) \<times> world" where
  "generate_study_plan e subject current_level target_level hours_per_week w =
     (let vars = \<lparr>pv_subject = subject, pv_current_level = current_level,
                  pv_target_level = target_level, pv_hours_per_week = hours_per_week,
                  pv_weeks = 4\<rparr>;
          w1 = w\<lparr>invoked := invoked w @ [vars]\<rparr>
      in case llm_reply e (length (invoked w)) vars of
           Inl x \<Rightarrow> (Inl x, w1)
         | Inr content \<Rightarrow> (evaluate e (strip_fences content), w1))"

section \<open>Raising and state\<close>

text \<open>
  A call either returns a value or raises; what it did to the state before raising
  stays done. \<open>bind_exn\<close> sequences two steps that touch no state, \<open>then_do\<close> two
  steps that do; in both the second step is skipped when the first raises.
\<close>

type_synonym 'a action = "world \<Rightarrow> (exn + 'a) \<times> world"

definition bind_exn :: "exn + 'a \<Rightarrow> ('a \<Rightarrow> exn + 'b) \<Rightarrow> exn + 'b" where
  "bind_exn r f = (case r of Inl x \<Rightarrow> Inl x | Inr v \<Rightarrow> f v)"

definition lift :: "exn + 'a \<Rightarrow> 'a action" where
  "lift r w = (r, w)"

definition then_do :: "'a action \<Rightarrow> ('a \<Rightarrow> 'b action) \<Rightarrow> 'b action" where
  "then_do m f w = (case m w of (Inl x, w1) \<Rightarrow> (Inl x, w1) | (Inr v, w1) \<Rightarrow> f v w1)"

section \<open>Video finder (source lines 75 to 85)\<close>

text \<open>What \<^verbatim>\<open>find_youtube_video\<close> makes of the search results.\<close>

definition video_of_results :: "(pyval \<Rightarrow> string) \<Rightarrow> pyval \<Rightarrow> exn + pyval" where
  "video_of_results other results =
     (if truthy results then
        bind_exn (subscript_0 results) (\<lambda>video.
        bind_exn (subscript_str video ''id'') (\<lambda>vid.
        bind_exn (subscript_str video ''title'') (\<lambda>title.
        bind_exn (subscript_str video ''id'') (\<lambda>vid2.
        bind_exn (subscript_str video ''thumbnails'') (\<lambda>thumbnails.
        bind_exn (subscript_0 thumbnails) (\<lambda>thumbnail.
          Inr (PDict [(''id'', vid), (''title'', title),
                      (''url'', PStr (''https://youtube.com/watch?v='' @ py_format other vid2)),
                      (''thumbnail'', thumbnail)])))))))
      else Inr PNone)"

text \<open>The outcome of the \<open>n\<close>-th search, for the query \<open>query\<close>.\<close>

definition lookup_outcome :: "env \<Rightarrow> nat \<Rightarrow> string \<Rightarrow> exn + pyval" where
  "lookup_outcome e n query =
     bind_exn (search_reply e n query) (video_of_results (repr_other e))"

definition find_youtube_video :: "env \<Rightarrow> string \<Rightarrow> pyval action" where
  "find_youtube_video e query w =
     (lookup_outcome e (length (searched w)) query, w\<lparr>searched := searched w @ [query]\<rparr>)"

section \<open>Enrichment (source lines 176 to 179)\<close>

text \<open>
  The loops assign \<^verbatim>\<open>topic['video']\<close> in place. In a model of values the changed
  elements are put back where the loop read them: into a list. The keys of a
  dictionary and the characters of a string are strings, which no assignment changes
  (the loop body raises on them), so these stay as they are.
\<close>

fun with_items :: "pyval \<Rightarrow> pyval list \<Rightarrow> pyval" where
  "with_items (PList xs) ys = PList ys"
| "with_items v ys = v"

fun with_field :: "pyval \<Rightarrow> string \<Rightarrow> pyval \<Rightarrow> pyval" where
  "with_field (PDict kvs) k v = PDict (dict_set kvs k v)"
| "with_field d k v = d"

definition video_query :: "env \<Rightarrow> string \<Rightarrow> pyval \<Rightarrow> string" where
  "video_query e subject name = py_format (repr_other e) name @ '' '' @ subject"

fun enrich_topics :: "env \<Rightarrow> string \<Rightarrow> pyval list \<Rightarrow> pyval list action" where
  "enrich_topics e subject [] w = (Inr [], w)"
| "enrich_topics e subject (topic # rest) w =
     then_do (lift (subscript_str topic ''name'')) (\<lambda>name.
     then_do (find_youtube_video e (video_query e subject name)) (\<lambda>video.
     then_do (lift (setitem_str topic ''video'' video)) (\<lambda>topic'.
     then_do (\<lambda>w'. enrich_topics e subject rest w') (\<lambda>rest'.
     lift (Inr (topic' # rest')))))) w"

fun enrich_weeks :: "env \<Rightarrow> string \<Rightarrow> pyval list \<Rightarrow> pyval list action" where
  "enrich_weeks e subject [] w = (Inr [], w)"
| "enrich_weeks e subject (week # rest) w =
     then_do (lift (subscript_str week ''topics'')) (\<lambda>topics.
     then_do (lift (py_iter topics)) (\<lambda>items.
     then_do (enrich_topics e subject items) (\<lambda>items'.
     then_do (\<lambda>w'. enrich_weeks e subject rest w') (\<lambda>rest'.
     lift (Inr (with_field week ''topics'' (with_items topics items') # rest')))))) w"

definition enrich :: "env \<Rightarrow> string \<Rightarrow> pyval \<Rightarrow> pyval action" where
  "enrich e subject plan =
     then_do (lift (subscript_str plan ''weeks'')) (\<lambda>weeks.
     then_do (lift (py_iter weeks)) (\<lambda>items.
     then_do (enrich_weeks e subject items) (\<lambda>items'.
     lift (Inr (with_field plan ''weeks'' (with_items weeks items'))))))"

section \<open>Persistence adapter (source lines 15 to 31)\<close>

text \<open>
  The collection is the list of its documents. The connection is taken to work: the
  only refusals modelled are those the store makes on the data it is given.
\<close>

fun doc_id :: "pyval \<Rightarrow> pyval option" where
  "doc_id (PDict kvs) = dict_get kvs ''_id''"
| "doc_id _ = None"

text \<open>
  \<^verbatim>\<open>insert_one\<close>: a document without \<^verbatim>\<open>_id\<close> is given a fresh identifier by the
  driver; identifiers are unique in a collection.
\<close>

definition insert_one :: "pyval \<Rightarrow> pyval action" where
  "insert_one doc w =
     (case doc of
        PDict kvs \<Rightarrow>
          (let i = (case dict_get kvs ''_id'' of None \<Rightarrow> PObjectId (next_oid w) | Some j \<Rightarrow> j);
               n = (case dict_get kvs ''_id'' of None \<Rightarrow> Suc (next_oid w) | Some j \<Rightarrow> next_oid w)
           in if Some i \<in> set (map doc_id (docs w)) then (Inl DuplicateKeyError, w)
              else (Inr i, w\<lparr>docs := docs w @ [PDict (dict_set kvs ''_id'' i)], next_oid := n\<rparr>))
      | _ \<Rightarrow> (Inl TypeError, w))"

definition save_plan :: "pyval \<Rightarrow> pyval action" where
  "save_plan plan = insert_one plan"

text \<open>
  \<^verbatim>\<open>$set\<close> with a path in dot notation: the path is cut at its dots, embedded
  documents are made where the path has none yet, and a path that runs into a value
  that is not a document is refused. The checks the server makes on the spelling of
  a path, and positions in arrays, are not modelled: the field \<^verbatim>\<open>progress\<close> is
  made as an empty document and only \<^verbatim>\<open>update_progress\<close> writes below it.
\<close>

fun split_dots :: "string \<Rightarrow> string list" where
  "split_dots [] = [[]]"
| "split_dots (c # cs) =
     (if c = CHR ''.'' then [] # split_dots cs
      else (case split_dots cs of [] \<Rightarrow> [[c]] | x # xs \<Rightarrow> (c # x) # xs))"

fun set_path :: "string list \<Rightarrow> pyval \<Rightarrow> pyval \<Rightarrow> exn + pyval" where
  "set_path [] v d = Inr v"
| "set_path (k # ks) v (PDict kvs) =
     bind_exn (set_path ks v (case dict_get kvs k of None \<Rightarrow> PDict [] | Some d \<Rightarrow> d))
       (\<lambda>d'. Inr (PDict (dict_set kvs k d')))"
| "set_path (k # ks) v d = Inl WriteError"

fun get_path :: "string list \<Rightarrow> pyval \<Rightarrow> pyval option" where
  "get_path [] d = Some d"
| "get_path (k # ks) (PDict kvs) =
     (case dict_get kvs k of None \<Rightarrow> None | Some d \<Rightarrow> get_path ks d)"
| "get_path (k # ks) d = None"

text \<open>\<^verbatim>\<open>update_one({"_id": i}, {"$set": {path: v}})\<close>: the first document whose
  \<^verbatim>\<open>_id\<close> is \<open>i\<close> is updated; with no such document nothing happens.\<close>

fun update_one :: "pyval \<Rightarrow> string \<Rightarrow> pyval \<Rightarrow> pyval list \<Rightarrow> exn + pyval list" where
  "update_one i path v [] = Inr []"
| "update_one i path v (d # ds) =
     (if doc_id d = Some i
      then bind_exn (set_path (split_dots path) v d) (\<lambda>d'. Inr (d' # ds))
      else bind_exn (update_one i path v ds) (\<lambda>ds'. Inr (d # ds')))"

fun find_one :: "pyval \<Rightarrow> pyval list \<Rightarrow> pyval option" where
  "find_one i [] = None"
| "find_one i (d # ds) = (if doc_id d = Some i then Some d else find_one i ds)"

definition progress_path :: "env \<Rightarrow> pyval \<Rightarrow> string" where
  "progress_path e topic = ''progress.'' @ py_format (repr_other e) topic"

definition update_progress :: "env \<Rightarrow> pyval \<Rightarrow> pyval \<Rightarrow> bool \<Rightarrow> unit action" where
  "update_progress e plan_id topic completed w =
     (case update_one plan_id (progress_path e topic) (PBool completed) (docs w) of
        Inl x \<Rightarrow> (Inl x, w)
      | Inr ds \<Rightarrow> (Inr (), w\<lparr>docs := ds\<rparr>))"

definition get_plan :: "pyval \<Rightarrow> world \<Rightarrow> pyval option" where
  "get_plan plan_id w = find_one plan_id (docs w)"

section \<open>The page (source lines 149 to 152, 171 to 192, 214 to 217)\<close>

definition init_session :: "world \<Rightarrow> world" where
  "init_session w =
     w\<lparr>session_plan := (case session_plan w of None \<Rightarrow> Some PNone | Some p \<Rightarrow> Some p),
       session_progress :=
         (case session_progress w of None \<Rightarrow> Some Map.empty | Some g \<Rightarrow> Some g)\<rparr>"

text \<open>The body of the \<^verbatim>\<open>try\<close>.\<close>

definition try_generate :: "env \<Rightarrow> string \<Rightarrow> string \<Rightarrow> string \<Rightarrow> int \<Rightarrow> unit action" where
  "try_generate e subject current_level target_level hours_per_week =
     then_do (generate_study_plan e subject current_level target_level hours_per_week) (\<lambda>plan0.
     then_do (enrich e subject plan0) (\<lambda>plan.
     then_do (lift (as_mapping plan)) (\<lambda>kvs.
     then_do (save_plan (PDict (dict_set (dict_set (dict_set kvs
                  ''subject'' (PStr subject))
                  ''created_at'' (PDatetime (clock e)))
                  ''progress'' (PDict [])))) (\<lambda>plan_id.
     (\<lambda>w. (Inr (), w\<lparr>session_plan := Some (PDict (dict_set kvs ''_id'' plan_id)),
                      shown := Some Success\<rparr>))))))"

text \<open>The button's handler: the \<^verbatim>\<open>try\<close> with its \<^verbatim>\<open>except Exception\<close>.\<close>

definition on_generate :: "env \<Rightarrow> string \<Rightarrow> string \<Rightarrow> string \<Rightarrow> int \<Rightarrow> world \<Rightarrow> world" where
  "on_generate e subject current_level target_level hours_per_week w =
     (case try_generate e subject current_level target_level hours_per_week w of
        (Inl x, w1) \<Rightarrow> w1\<lparr>shown := Some (Error x)\<rparr>
      | (Inr u, w1) \<Rightarrow> w1)"

text \<open>
  A key of the progress dictionary must be hashable, and \<^verbatim>\<open>True\<close> and \<^verbatim>\<open>1\<close>
  (\<^verbatim>\<open>False\<close> and \<^verbatim>\<open>0\<close>) are one key.
\<close>

fun hash_key :: "pyval \<Rightarrow> exn + pyval" where
  "hash_key (PList xs) = Inl TypeError"
| "hash_key (PDict kvs) = Inl TypeError"
| "hash_key (PBool b) = Inr (PInt (if b then 1 else 0))"
| "hash_key v = Inr v"

text \<open>\<^verbatim>\<open>progress.get(name, False)\<close>\<close>

definition progress_get :: "(pyval \<Rightarrow> bool option) \<Rightarrow> pyval \<Rightarrow> exn + bool" where
  "progress_get prog name =
     bind_exn (hash_key name) (\<lambda>k. Inr (case prog k of None \<Rightarrow> False | Some b \<Rightarrow> b))"

fun total_topics :: "pyval list \<Rightarrow> exn + nat" where
  "total_topics [] = Inr 0"
| "total_topics (week # rest) =
     bind_exn (subscript_str week ''topics'') (\<lambda>topics.
     bind_exn (py_len topics) (\<lambda>n.
     bind_exn (total_topics rest) (\<lambda>m. Inr (n + m))))"

fun completed_in :: "(pyval \<Rightarrow> bool option) \<Rightarrow> pyval list \<Rightarrow> exn + nat" where
  "completed_in prog [] = Inr 0"
| "completed_in prog (topic # rest) =
     bind_exn (subscript_str topic ''name'') (\<lambda>name.
     bind_exn (progress_get prog name) (\<lambda>b.
     bind_exn (completed_in prog rest) (\<lambda>m. Inr ((if b then 1 else 0) + m))))"

fun completed_topics :: "(pyval \<Rightarrow> bool option) \<Rightarrow> pyval list \<Rightarrow> exn + nat" where
  "completed_topics prog [] = Inr 0"
| "completed_topics prog (week # rest) =
     bind_exn (subscript_str week ''topics'') (\<lambda>topics.
     bind_exn (py_iter topics) (\<lambda>items.
     bind_exn (completed_in prog items) (\<lambda>n.
     bind_exn (completed_topics prog rest) (\<lambda>m. Inr (n + m)))))"

text \<open>
  The fraction the progress bar shows. Python's \<^verbatim>\<open>/\<close> gives the floating-point
  number nearest to the quotient; the model keeps the quotient itself.
\<close>

definition display_progress :: "pyval \<Rightarrow> (pyval \<Rightarrow> bool option) \<Rightarrow> exn + rat" where
  "display_progress plan prog =
     bind_exn (subscript_str plan ''weeks'') (\<lambda>weeks.
     bind_exn (py_iter weeks) (\<lambda>ws.
     bind_exn (total_topics ws) (\<lambda>total.
     bind_exn (subscript_str plan ''weeks'') (\<lambda>weeks2.
     bind_exn (py_iter weeks2) (\<lambda>ws2.
     bind_exn (completed_topics prog ws2) (\<lambda>completed.
       Inr (if total > 0 then of_nat completed / of_nat total else 0)))))))"


section \<open>A reader for literal expressions\<close>

text \<open>
  To run the program on a concrete answer of the model, \<^verbatim>\<open>eval\<close> is needed on that
  answer. \<open>read_literal\<close> reads the expressions made of \<^verbatim>\<open>None\<close>, \<^verbatim>\<open>True\<close>,
  \<^verbatim>\<open>False\<close>, decimal integers, quoted strings without backslash, list displays and
  dictionary displays with string keys: on those \<^verbatim>\<open>eval\<close> returns the value they
  denote. A repeated key keeps its first place and its last value. Everything else
  is outside the reader (\<open>None\<close>).
\<close>

definition is_space :: "char \<Rightarrow> bool" where
  "is_space c = (c = CHR '' '' \<or> c = CHR 0x0A \<or> c = CHR 0x09 \<or> c = CHR 0x0D)"

definition is_digit :: "char \<Rightarrow> bool" where
  "is_digit c = ((48::nat) \<le> of_char c \<and> of_char c \<le> (57::nat))"

definition is_name_char :: "char \<Rightarrow> bool" where
  "is_name_char c =
     (is_digit c \<or> c = CHR ''_'' \<or> ((65::nat) \<le> of_char c \<and> of_char c \<le> (90::nat))
      \<or> ((97::nat) \<le> of_char c \<and> of_char c \<le> (122::nat)))"

definition skip_ws :: "string \<Rightarrow> string" where
  "skip_ws s = dropWhile is_space s"

fun read_quoted :: "char \<Rightarrow> string \<Rightarrow> (string \<times> string) option" where
  "read_quoted q [] = None"
| "read_quoted q (c # cs) =
     (if c = q then Some ([], cs)
      else if c = CHR 0x5C \<or> c = CHR 0x0A then None
      else map_option (\<lambda>(s, r). (c # s, r)) (read_quoted q cs))"

definition digits_value :: "string \<Rightarrow> nat" where
  "digits_value ds = foldl (\<lambda>n c. 10 * n + (of_char c - 48)) (0::nat) ds"

definition read_number :: "string \<Rightarrow> (pyval \<times> string) option" where
  "read_number s =
     (let neg = (s \<noteq> [] \<and> hd s = CHR ''-'');
          t = (if neg then skip_ws (tl s) else s);
          ds = takeWhile is_digit t;
          r = dropWhile is_digit t
      in if ds = [] \<or> (hd ds = CHR ''0'' \<and> length ds > 1)
            \<or> (r \<noteq> [] \<and> (is_name_char (hd r) \<or> hd r = CHR ''.'')) then None
         else Some (PInt (if neg then - int (digits_value ds) else int (digits_value ds)), r))"

definition read_word :: "string \<Rightarrow> (pyval \<times> string) option" where
  "read_word s =
     (let w = takeWhile is_name_char s; r = dropWhile is_name_char s
      in if w = ''None'' then Some (PNone, r)
         else if w = ''True'' then Some (PBool True, r)
         else if w = ''False'' then Some (PBool False, r)
         else None)"

fun read_value :: "nat \<Rightarrow> string \<Rightarrow> (pyval \<times> string) option"
  and read_items :: "nat \<Rightarrow> pyval list \<Rightarrow> string \<Rightarrow> (pyval \<times> string) option"
  and read_pairs :: "nat \<Rightarrow> (string \<times> pyval) list \<Rightarrow> string \<Rightarrow> (pyval \<times> string) option"
where
  "read_value 0 s = None"
| "read_value (Suc n) s =
     (case skip_ws s of
        [] \<Rightarrow> None
      | c # r \<Rightarrow>
          if c = CHR ''{'' then read_pairs n [] r
          else if c = CHR ''['' then read_items n [] r
          else if c = CHR 0x22 \<or> c = CHR 0x27
            then map_option (\<lambda>(t, r'). (PStr t, r')) (read_quoted c r)
          else if is_digit c \<or> c = CHR ''-'' then read_number (c # r)
          else read_word (c # r))"
| "read_items 0 acc s = None"
| "read_items (Suc n) acc s =
     (case skip_ws s of
        [] \<Rightarrow> None
      | c # r \<Rightarrow>
          if c = CHR '']'' then Some (PList acc, r)
          else (case read_value n (c # r) of
                  None \<Rightarrow> None
                | Some (v, r1) \<Rightarrow>
                    (case skip_ws r1 of
                       [] \<Rightarrow> None
                     | d # r2 \<Rightarrow>
                         if d = CHR '','' then read_items n (acc @ [v]) r2
                         else if d = CHR '']'' then Some (PList (acc @ [v]), r2)
                         else None)))"
| "read_pairs 0 acc s = None"
| "read_pairs (Suc n) acc s =
     (case skip_ws s of
        [] \<Rightarrow> None
      | c # r \<Rightarrow>
          if c = CHR ''}'' then Some (PDict acc, r)
          else if c = CHR 0x22 \<or> c = CHR 0x27 then
            (case read_quoted c r of
               None \<Rightarrow> None
             | Some (k, r1) \<Rightarrow>
                 (case skip_ws r1 of
                    [] \<Rightarrow> None
                  | d # r2 \<Rightarrow>
                      if d = CHR '':'' then
                        (case read_value n r2 of
                           None \<Rightarrow> None
                         | Some (v, r3) \<Rightarrow>
                             (case skip_ws r3 of
                                [] \<Rightarrow> None
                              | f # r4 \<Rightarrow>
                                  if f = CHR '','' then read_pairs n (dict_set acc k v) r4
                                  else if f = CHR ''}'' then Some (PDict (dict_set acc k v), r4)
                                  else None))
                      else None))
          else None)"

definition read_literal :: "string \<Rightarrow> pyval option" where
  "read_literal s =
     (case read_value (Suc (length s)) s of
        None \<Rightarrow> None
      | Some (v, r) \<Rightarrow> if skip_ws r = [] then Some v else None)"


section \<open>Reading a plan as the page does\<close>

text \<open>
  The topics of a plan in the order in which the loops
  \<^verbatim>\<open>for week in plan['weeks']: for topic in week['topics']\<close> meet them, and their
  names (\<^verbatim>\<open>topic['name']\<close>).
\<close>

fun topics_in :: "pyval list \<Rightarrow> exn + pyval list" where
  "topics_in [] = Inr []"
| "topics_in (week # rest) =
     bind_exn (subscript_str week ''topics'') (\<lambda>topics.
     bind_exn (py_iter topics) (\<lambda>items.
     bind_exn (topics_in rest) (\<lambda>more. Inr (items @ more))))"

fun names_in :: "pyval list \<Rightarrow> exn + pyval list" where
  "names_in [] = Inr []"
| "names_in (topic # rest) =
     bind_exn (subscript_str topic ''name'') (\<lambda>name.
     bind_exn (names_in rest) (\<lambda>more. Inr (name # more)))"

definition plan_topics :: "pyval \<Rightarrow> exn + pyval list" where
  "plan_topics plan =
     bind_exn (subscript_str plan ''weeks'') (\<lambda>weeks.
     bind_exn (py_iter weeks) topics_in)"

definition topic_names :: "pyval \<Rightarrow> exn + pyval list" where
  "topic_names plan = bind_exn (plan_topics plan) names_in"

section \<open>Concrete runs\<close>

text \<open>
  An environment for examples: the model answers \<open>answers ! n\<close> to its \<open>n\<close>-th
  call (and fails when the list is used up), expressions are evaluated by the
  reader of literals, and the \<open>n\<close>-th search gives \<open>found ! n\<close>.
\<close>

definition nth_or :: "'a list \<Rightarrow> nat \<Rightarrow> 'a \<Rightarrow> 'a" where
  "nth_or xs n d = (if n < length xs then xs ! n else d)"

definition scripted :: "(exn + string) list \<Rightarrow> (exn + pyval) list \<Rightarrow> env" where
  "scripted answers found =
     \<lparr>llm_reply = (\<lambda>n vars. nth_or answers n (Inl (Raised ''model unavailable''))),
      evaluate = (\<lambda>s. case read_literal s of
                         None \<Rightarrow> Inl (Raised ''invalid expression'')
                       | Some v \<Rightarrow> Inr v),
      search_reply = (\<lambda>n query. nth_or found n (Inr (PList []))),
      clock = 0,
      repr_other = (\<lambda>v. ''?'')\<rparr>"

definition fresh :: world where
  "fresh = \<lparr>docs = [], next_oid = 0, session_plan = None, session_progress = None,
            invoked = [], searched = [], shown = None\<rparr>"

definition sample_video :: pyval where
  "sample_video =
     PDict [(''id'', PStr ''abc123''), (''thumbnails'', PList [PStr ''https://i.ytimg.com/vi/abc123/hq.jpg'']),
            (''title'', PStr ''Linear regression in 10 minutes''), (''url_suffix'', PStr ''/watch?v=abc123'')]"

definition sample_answer :: string where
  "sample_answer =
     ''```json'' @ [CHR 0x0A] @
     ''{\"weeks\": [{\"week_number\": 1, \"focus_area\": \"Basics\", \"objectives\": [\"Start\"], '' @
     ''\"topics\": [{\"name\": \"Regression\", \"hours\": 2, \"description\": \"Fit a line\"}, '' @
     ''{\"name\": \"Trees\", \"hours\": 3, \"description\": \"Split data\"}], '' @
     ''\"recommended_hours\": 10}]}'' @ [CHR 0x0A] @ ''```''"

text \<open>What the spec calls a plan whose \<open>weeks\<close> is a non-empty ordered sequence.\<close>

fun nonempty_weeks :: "pyval \<Rightarrow> bool" where
  "nonempty_weeks (PDict kvs) =
     (case dict_get kvs ''weeks'' of Some (PList (x # xs)) \<Rightarrow> True | _ \<Rightarrow> False)"
| "nonempty_weeks _ = False"

text \<open>A complete video record: the four fields and no other.\<close>

fun is_video_ref :: "pyval \<Rightarrow> bool" where
  "is_video_ref (PDict [(a, vid), (b, title), (c, url), (d, thumbnail)]) =
     (a = ''id'' \<and> b = ''title'' \<and> c = ''url'' \<and> d = ''thumbnail'')"
| "is_video_ref _ = False"

text \<open>
  Stores for examples, each made by the operations of the program: one saved plan;
  the same after the topic \<^verbatim>\<open>Node\<close> was checked; and two saved plans.
\<close>

definition plain_doc :: pyval where
  "plain_doc = PDict [(''weeks'', PList []), (''subject'', PStr ''Go''), (''progress'', PDict [])]"

definition saved :: world where
  "saved = snd (save_plan plain_doc fresh)"

definition blocked :: world where
  "blocked = snd (update_progress (scripted [] []) (PObjectId 0) (PStr ''Node'') True saved)"

definition two_plans :: world where
  "two_plans = snd (save_plan (PDict [(''weeks'', PList []), (''subject'', PStr ''Rust'')]) saved)"

section \<open>Notions the properties are stated with\<close>

text \<open>
  Some search among \<open>queries\<close>, made as the \<open>n\<close>-th search and the following ones,
  ends in an exception, raised by the search itself or by what
  \<^verbatim>\<open>find_youtube_video\<close> does with its results.
\<close>

fun lookup_raised :: "env \<Rightarrow> nat \<Rightarrow> string list \<Rightarrow> bool" where
  "lookup_raised e n [] = False"
| "lookup_raised e n (q # qs) = (isl (lookup_outcome e n q) \<or> lookup_raised e (Suc n) qs)"

text \<open>The topic \<open>t'\<close> is the topic \<open>t\<close> with a video assigned: \<^verbatim>\<open>None\<close> or a
  complete record.\<close>

definition enriched :: "pyval \<Rightarrow> pyval \<Rightarrow> bool" where
  "enriched t t' =
     (case t of
        PDict kvs \<Rightarrow>
          (case dict_get (case t' of PDict kvs' \<Rightarrow> kvs' | _ \<Rightarrow> []) ''video'' of
             None \<Rightarrow> False
           | Some video \<Rightarrow> t' = PDict (dict_set kvs ''video'' video)
                           \<and> (video = PNone \<or> is_video_ref video))
      | _ \<Rightarrow> False)"

text \<open>A topic has its \<^verbatim>\<open>video\<close> key, holding \<^verbatim>\<open>None\<close> or a complete record.\<close>

definition has_video :: "pyval \<Rightarrow> bool" where
  "has_video t =
     (case subscript_str t ''video'' of
        Inl x \<Rightarrow> False
      | Inr video \<Rightarrow> video = PNone \<or> is_video_ref video)"

text \<open>A value can be a key of the progress dictionary.\<close>

definition hashable :: "pyval \<Rightarrow> bool" where
  "hashable v = (\<not> isl (hash_key v))"

text \<open>The progress dictionary maps the topic name to \<^verbatim>\<open>True\<close>.\<close>

definition is_checked :: "(pyval \<Rightarrow> bool option) \<Rightarrow> pyval \<Rightarrow> bool" where
  "is_checked prog name = (progress_get prog name = Inr True)"

text \<open>
  Runs of the scenario of the spec: \<open>good_env\<close> answers the first request with a
  fenced plan of one week and two topics and finds a video for the first topic only;
  in \<open>flaky_env\<close> the second search raises. In both the model is unavailable from
  the second request on.
\<close>

definition good_env :: env where
  "good_env = scripted [Inr sample_answer] [Inr (PList [sample_video])]"

definition flaky_env :: env where
  "flaky_env =
     scripted [Inr sample_answer] [Inr (PList [sample_video]), Inl (Raised ''search failed'')]"

definition ml_run :: "env \<Rightarrow> world \<Rightarrow> world" where
  "ml_run e w = on_generate e ''Machine Learning'' ''Beginner'' ''Intermediate'' 10 w"

definition two_topics :: pyval where
  "two_topics =
     PDict [(''weeks'', PList [PDict [(''week_number'', PInt 1),
        (''topics'', PList [PDict [(''name'', PStr ''Regression'')],
                            PDict [(''name'', PStr ''Trees'')]])]])]"

section \<open>Sequencing\<close>

declare replace.simps [simp del]
declare show_nat.simps [simp del]

lemma bind_exn_Inl [simp]: "bind_exn (Inl x) f = Inl x"
  by (simp add: bind_exn_def)

lemma bind_exn_Inr [simp]: "bind_exn (Inr v) f = f v"
  by (simp add: bind_exn_def)

lemma bind_exn_eq_Inr: "bind_exn r f = Inr y \<longleftrightarrow> (\<exists>v. r = Inr v \<and> f v = Inr y)"
  by (cases r) simp_all

lemma then_do_Inr: "m w = (Inr v, w1) \<Longrightarrow> then_do m f w = f v w1"
  by (simp add: then_do_def)

lemma then_do_Inl: "m w = (Inl x, w1) \<Longrightarrow> then_do m f w = (Inl x, w1)"
  by (simp add: then_do_def)

lemma then_do_lift_Inr [simp]: "then_do (lift (Inr v)) f w = f v w"
  by (simp add: then_do_def lift_def)

lemma then_do_lift_Inl [simp]: "then_do (lift (Inl x)) f w = (Inl x, w)"
  by (simp add: then_do_def lift_def)

section \<open>The plan generator\<close>

lemma replace_Nil [simp]: "old \<noteq> [] \<Longrightarrow> replace [] old new = []"
  by (simp add: replace.simps)

lemma replace_skip:
  "old \<noteq> [] \<Longrightarrow> \<not> prefix old (c # s) \<Longrightarrow> replace (c # s) old new = c # replace s old new"
  by (subst replace.simps) simp

lemma replace_hit:
  "old \<noteq> [] \<Longrightarrow> replace (old @ s) old new = new @ replace s old new"
  by (subst replace.simps) auto

lemma replace_json_tail:
  "CHR 0x60 \<notin> set body \<Longrightarrow> replace (body @ ''```'') ''```json'' '''' = body @ ''```''"
proof (induction body)
  case Nil
  show ?case by code_simp
next
  case (Cons c body)
  then have "\<not> prefix ''```json'' (c # body @ ''```'')" by auto
  with Cons show ?case by (simp add: replace_skip)
qed

lemma replace_fence_tail:
  "CHR 0x60 \<notin> set body \<Longrightarrow> replace (body @ ''```'') ''```'' '''' = body"
proof (induction body)
  case Nil
  show ?case by code_simp
next
  case (Cons c body)
  then have "\<not> prefix ''```'' (c # body @ ''```'')" by auto
  with Cons show ?case by (simp add: replace_skip)
qed

text \<open>An answer wrapped in a \<^verbatim>\<open>json\<close> code fence is unwrapped by the two replacements.\<close>

lemma strip_fences_fenced:
  assumes "CHR 0x60 \<notin> set body"
  shows "strip_fences (''```json'' @ body @ ''```'') = body"
proof -
  have "replace (''```json'' @ (body @ ''```'')) ''```json'' ''''
        = replace (body @ ''```'') ''```json'' ''''"
    by (subst replace_hit) simp_all
  then show ?thesis
    using assms by (simp add: strip_fences_def replace_json_tail replace_fence_tail)
qed

text \<open>
  C1, as the claim states it, fails: the function returns whatever the answer of the
  model evaluates to. On the answer \<^verbatim>\<open>{}\<close> it returns a dictionary without
  \<^verbatim>\<open>weeks\<close>, and on \<^verbatim>\<open>{"weeks": []}\<close> a plan whose \<^verbatim>\<open>weeks\<close> is empty; in neither
  case does it raise.
\<close>

theorem generate_study_plan_unchecked:
  "fst (generate_study_plan (scripted [Inr ''{}''] []) ''Machine Learning'' ''Beginner''
          ''Intermediate'' 10 fresh) = Inr (PDict [])
   \<and> \<not> nonempty_weeks (PDict [])
   \<and> subscript_str (PDict []) ''weeks'' = Inl (KeyError ''weeks'')
   \<and> fst (generate_study_plan (scripted [Inr ''{\"weeks\": []}''] []) ''Machine Learning''
          ''Beginner'' ''Intermediate'' 10 fresh) = Inr (PDict [(''weeks'', PList [])])
   \<and> \<not> nonempty_weeks (PDict [(''weeks'', PList [])])"
  by code_simp

text \<open>
  C1, amended: for every input, \<open>generate_study_plan\<close> either raises or returns
  exactly the value to which the answer of the model, with the code-fence markers
  removed, evaluates. Nothing about that value is checked, so its \<^verbatim>\<open>weeks\<close> is a
  non-empty sequence only when the answer says so.
\<close>

theorem generate_study_plan_returns_evaluated:
  "(\<exists>x. fst (generate_study_plan e subject current_level target_level hours_per_week w) = Inl x)
   \<or> (\<exists>content v.
        llm_reply e (length (invoked w))
          \<lparr>pv_subject = subject, pv_current_level = current_level,
           pv_target_level = target_level, pv_hours_per_week = hours_per_week,
           pv_weeks = 4\<rparr> = Inr content
        \<and> evaluate e (strip_fences content) = Inr v
        \<and> fst (generate_study_plan e subject current_level target_level hours_per_week w) = Inr v)"
  by (cases "llm_reply e (length (invoked w))
          \<lparr>pv_subject = subject, pv_current_level = current_level,
           pv_target_level = target_level, pv_hours_per_week = hours_per_week,
           pv_weeks = 4\<rparr>";
      cases "evaluate e (strip_fences (projr (llm_reply e (length (invoked w))
          \<lparr>pv_subject = subject, pv_current_level = current_level,
           pv_target_level = target_level, pv_hours_per_week = hours_per_week,
           pv_weeks = 4\<rparr>)))")
     (simp_all add: generate_study_plan_def Let_def)

section \<open>The persistence adapter\<close>

lemma dict_get_set: "dict_get (dict_set kvs k v) k' = (if k' = k then Some v else dict_get kvs k')"
  by (induction kvs) auto

lemma split_dots_nonempty: "split_dots s \<noteq> []"
  by (induction s) (auto split: list.splits)

lemma split_dots_Cons:
  "c \<noteq> CHR ''.'' \<Longrightarrow> split_dots (c # cs) = (c # hd (split_dots cs)) # tl (split_dots cs)"
  using split_dots_nonempty [of cs] by (cases "split_dots cs") simp_all

lemma split_dots_progress: "split_dots (''progress.'' @ t) = ''progress'' # split_dots t"
  by (simp add: split_dots_Cons)

lemma set_path_get: "set_path ks v d = Inr d' \<Longrightarrow> get_path ks d' = Some v"
proof (induction ks arbitrary: d d')
  case Nil
  then show ?case by simp
next
  case (Cons k ks)
  then obtain kvs where d: "d = PDict kvs" by (cases d) simp_all
  from Cons.prems d obtain c where
    c: "set_path ks v (case dict_get kvs k of None \<Rightarrow> PDict [] | Some x \<Rightarrow> x) = Inr c"
    and d': "d' = PDict (dict_set kvs k c)"
    by (auto simp: bind_exn_eq_Inr)
  from Cons.IH [OF c] d' show ?case by (simp add: dict_get_set)
qed

lemma set_path_again: "set_path ks v d = Inr d' \<Longrightarrow> \<exists>d''. set_path ks v2 d' = Inr d''"
proof (induction ks arbitrary: d d')
  case Nil
  then show ?case by simp
next
  case (Cons k ks)
  then obtain kvs where d: "d = PDict kvs" by (cases d) simp_all
  from Cons.prems d obtain c where
    c: "set_path ks v (case dict_get kvs k of None \<Rightarrow> PDict [] | Some x \<Rightarrow> x) = Inr c"
    and d': "d' = PDict (dict_set kvs k c)"
    by (auto simp: bind_exn_eq_Inr)
  from Cons.IH [OF c] obtain c' where "set_path ks v2 c = Inr c'" by blast
  with d' show ?case by (simp add: dict_get_set)
qed

lemma get_path_empty_dict: "p \<noteq> [] \<Longrightarrow> get_path p (PDict []) = None"
  by (cases p) simp_all

lemma set_path_frame:
  "set_path ks v d = Inr d' \<Longrightarrow> \<not> prefix p ks \<Longrightarrow> \<not> prefix ks p \<Longrightarrow> get_path p d' = get_path p d"
proof (induction ks arbitrary: d d' p)
  case Nil
  then show ?case by simp
next
  case (Cons k ks)
  then obtain kvs where d: "d = PDict kvs" by (cases d) simp_all
  from Cons.prems d obtain c where
    c: "set_path ks v (case dict_get kvs k of None \<Rightarrow> PDict [] | Some x \<Rightarrow> x) = Inr c"
    and d': "d' = PDict (dict_set kvs k c)"
    by (auto simp: bind_exn_eq_Inr)
  from Cons.prems obtain q qs where p: "p = q # qs" by (cases p) simp_all
  show ?case
  proof (cases "q = k")
    case False
    with p d d' show ?thesis by (simp add: dict_get_set)
  next
    case True
    with p Cons.prems have np: "\<not> prefix qs ks" "\<not> prefix ks qs" by simp_all
    then have "qs \<noteq> []" by auto
    from Cons.IH [OF c np]
    have "get_path qs c = get_path qs (case dict_get kvs k of None \<Rightarrow> PDict [] | Some x \<Rightarrow> x)" .
    with True p d d' \<open>qs \<noteq> []\<close> show ?thesis
      by (simp add: dict_get_set get_path_empty_dict split: option.splits)
  qed
qed

lemma set_path_doc_id:
  "set_path (k # ks) v d = Inr d' \<Longrightarrow> k \<noteq> ''_id'' \<Longrightarrow> doc_id d' = doc_id d"
  by (cases d) (auto simp: bind_exn_eq_Inr dict_get_set)

lemma update_one_absent: "find_one i ds = None \<Longrightarrow> update_one i path v ds = Inr ds"
  by (induction ds) (auto split: if_splits)

lemma update_one_found:
  assumes "find_one i ds = Some d" and "update_one i path v ds = Inr ds'"
    and "hd (split_dots path) \<noteq> ''_id''"
  shows "\<exists>d'. set_path (split_dots path) v d = Inr d' \<and> find_one i ds' = Some d'"
  using assms
proof (induction ds arbitrary: ds')
  case Nil
  then show ?case by simp
next
  case (Cons a ds)
  show ?case
  proof (cases "doc_id a = Some i")
    case True
    with Cons.prems obtain d' where s: "set_path (split_dots path) v a = Inr d'" and "ds' = d' # ds" and "a = d"
      by (auto simp: bind_exn_eq_Inr)
    moreover from s Cons.prems(3) have "doc_id d' = doc_id a"
      using split_dots_nonempty [of path] by (cases "split_dots path") (auto dest: set_path_doc_id)
    ultimately show ?thesis using True by simp
  next
    case False
    with Cons.prems obtain r where "update_one i path v ds = Inr r" and "ds' = a # r" and "find_one i ds = Some d"
      by (auto simp: bind_exn_eq_Inr)
    with Cons.IH [of r] Cons.prems(3) False show ?thesis by simp
  qed
qed

lemma update_one_accepts:
  assumes "find_one i ds = Some d" and "set_path (split_dots path) v d = Inr d'"
  shows "\<exists>ds'. update_one i path v ds = Inr ds'"
  using assms by (induction ds) (auto split: if_splits)

lemma update_one_frame:
  "update_one i path v ds = Inr ds' \<Longrightarrow>
   list_all2 (\<lambda>d d'. (doc_id d \<noteq> Some i \<longrightarrow> d' = d)
      \<and> (\<forall>p. \<not> prefix p (split_dots path) \<and> \<not> prefix (split_dots path) p
             \<longrightarrow> get_path p d' = get_path p d)) ds ds'"
proof (induction ds arbitrary: ds')
  case Nil
  then show ?case by simp
next
  case (Cons a ds)
  show ?case
  proof (cases "doc_id a = Some i")
    case True
    with Cons.prems obtain d' where s: "set_path (split_dots path) v a = Inr d'" and "ds' = d' # ds"
      by (auto simp: bind_exn_eq_Inr)
    then show ?thesis using True
      by (auto simp: list_all2_same dest: set_path_frame)
  next
    case False
    with Cons.prems obtain r where "update_one i path v ds = Inr r" and "ds' = a # r"
      by (auto simp: bind_exn_eq_Inr)
    with Cons.IH [of r] show ?thesis by simp
  qed
qed



text \<open>
  C8: for every state of the store and every \<open>plan_id\<close> that no document of the
  store has, \<open>update_progress\<close> raises nothing and leaves the state as it was.
\<close>

theorem update_progress_absent:
  assumes "get_plan plan_id w = None"
  shows "update_progress e plan_id topic completed w = (Inr (), w)"
  using assms by (simp add: update_progress_def get_plan_def update_one_absent)

text \<open>The store with one saved plan has no document with the identifier 7.\<close>

theorem update_progress_absent_witness:
  "get_plan (PObjectId 7) saved = None
   \<and> update_progress (scripted [] []) (PObjectId 7) (PStr ''Trees'') True saved = (Inr (), saved)"
proof -
  have h: "get_plan (PObjectId 7) saved = None" by code_simp
  from update_progress_absent [OF h] h show ?thesis by simp
qed

text \<open>
  C6, amended: when the store holds a document with the given \<open>plan_id\<close> and accepts
  a first \<open>update_progress\<close> for a topic, it accepts a second one for the same
  \<open>plan_id\<close> and topic, and the value then stored at \<^verbatim>\<open>progress.<topic>\<close> is the
  boolean of the second call, whatever the two booleans are.
\<close>

theorem update_progress_last_write:
  assumes "get_plan plan_id w = Some d"
    and "update_progress e plan_id topic b1 w = (Inr (), w1)"
  shows "\<exists>w2 d2. update_progress e plan_id topic b2 w1 = (Inr (), w2)
           \<and> get_plan plan_id w2 = Some d2
           \<and> get_path (split_dots (progress_path e topic)) d2 = Some (PBool b2)"
proof -
  let ?path = "progress_path e topic"
  have hd: "hd (split_dots ?path) \<noteq> ''_id''"
    by (simp add: progress_path_def split_dots_progress)
  from assms(2) obtain ds1 where u1: "update_one plan_id ?path (PBool b1) (docs w) = Inr ds1"
    and w1: "w1 = w\<lparr>docs := ds1\<rparr>"
    by (auto simp: update_progress_def split: sum.splits)
  from assms(1) have f: "find_one plan_id (docs w) = Some d" by (simp add: get_plan_def)
  from update_one_found [OF f u1 hd] obtain d1 where
    s1: "set_path (split_dots ?path) (PBool b1) d = Inr d1" and f1: "find_one plan_id ds1 = Some d1"
    by blast
  from set_path_again [OF s1] obtain d2 where s2: "set_path (split_dots ?path) (PBool b2) d1 = Inr d2"
    by blast
  from update_one_accepts [OF f1 s2] obtain ds2 where
    u2: "update_one plan_id ?path (PBool b2) ds1 = Inr ds2" by blast
  from update_one_found [OF f1 u2 hd] s2 have f2: "find_one plan_id ds2 = Some d2" by auto
  from u2 w1 have "update_progress e plan_id topic b2 w1 = (Inr (), w1\<lparr>docs := ds2\<rparr>)"
    by (simp add: update_progress_def)
  moreover from f2 have "get_plan plan_id (w1\<lparr>docs := ds2\<rparr>) = Some d2" by (simp add: get_plan_def)
  moreover from set_path_get [OF s2] have "get_path (split_dots ?path) d2 = Some (PBool b2)" .
  ultimately show ?thesis by blast
qed

text \<open>
  C6, as the claim states it, fails on a store the program itself produces. After
  the topic \<^verbatim>\<open>Node\<close> was checked, \<^verbatim>\<open>progress.Node\<close> holds a boolean; the path
  \<^verbatim>\<open>progress.Node.js\<close> of the topic \<^verbatim>\<open>Node.js\<close> runs into it, both calls are
  refused, and no value is stored for that topic.
\<close>

theorem update_progress_refused:
  "get_plan (PObjectId 0) blocked \<noteq> None
   \<and> fst (update_progress (scripted [] []) (PObjectId 0) (PStr ''Node.js'') True blocked)
       = Inl WriteError
   \<and> fst (update_progress (scripted [] []) (PObjectId 0) (PStr ''Node.js'') False
            (snd (update_progress (scripted [] []) (PObjectId 0) (PStr ''Node.js'') True blocked)))
       = Inl WriteError
   \<and> map_option (get_path (split_dots (progress_path (scripted [] []) (PStr ''Node.js''))))
        (get_plan (PObjectId 0)
          (snd (update_progress (scripted [] []) (PObjectId 0) (PStr ''Node.js'') False
            (snd (update_progress (scripted [] []) (PObjectId 0) (PStr ''Node.js'') True blocked)))))
       \<noteq> Some (Some (PBool False))"
  by code_simp

text \<open>
  C7: whatever \<open>update_progress\<close> returns, it changes nothing but the collection;
  there, a document with another identifier is left as it was, and in every document
  each field is left as it was unless its path lies on the path
  \<^verbatim>\<open>progress.<topic>\<close> (is a part of it or leads through it).
\<close>

theorem update_progress_frame:
  assumes "update_progress e plan_id topic completed w = (r, w')"
  shows "w' = w\<lparr>docs := docs w'\<rparr> \<and> length (docs w') = length (docs w)
     \<and> (\<forall>i < length (docs w).
           (doc_id (docs w ! i) \<noteq> Some plan_id \<longrightarrow> docs w' ! i = docs w ! i)
         \<and> (\<forall>p. \<not> prefix p (split_dots (progress_path e topic))
                \<and> \<not> prefix (split_dots (progress_path e topic)) p
                \<longrightarrow> get_path p (docs w' ! i) = get_path p (docs w ! i)))"
proof (cases "update_one plan_id (progress_path e topic) (PBool completed) (docs w)")
  case (Inl x)
  with assms have "w' = w" by (simp add: update_progress_def)
  then show ?thesis by simp
next
  case (Inr ds)
  with assms have w': "w' = w\<lparr>docs := ds\<rparr>" by (simp add: update_progress_def)
  from update_one_frame [OF Inr] w' show ?thesis
    by (simp add: list_all2_conv_all_nth)
qed



text \<open>Checking and unchecking the topic \<^verbatim>\<open>Trees\<close> of a saved plan.\<close>

theorem update_progress_last_write_witness:
  "get_plan (PObjectId 0) saved
     = Some (PDict [(''weeks'', PList []), (''subject'', PStr ''Go''), (''progress'', PDict []),
                    (''_id'', PObjectId 0)])
   \<and> fst (update_progress (scripted [] []) (PObjectId 0) (PStr ''Trees'') True saved) = Inr ()
   \<and> (\<exists>w2 d2. update_progress (scripted [] []) (PObjectId 0) (PStr ''Trees'') False
                 (snd (update_progress (scripted [] []) (PObjectId 0) (PStr ''Trees'') True saved))
                 = (Inr (), w2)
        \<and> get_plan (PObjectId 0) w2 = Some d2
        \<and> get_path (split_dots (progress_path (scripted [] []) (PStr ''Trees''))) d2
            = Some (PBool False))"
proof -
  have h1: "get_plan (PObjectId 0) saved
     = Some (PDict [(''weeks'', PList []), (''subject'', PStr ''Go''), (''progress'', PDict []),
                    (''_id'', PObjectId 0)])"
    by code_simp
  have h2: "fst (update_progress (scripted [] []) (PObjectId 0) (PStr ''Trees'') True saved) = Inr ()"
    by code_simp
  then have h3: "update_progress (scripted [] []) (PObjectId 0) (PStr ''Trees'') True saved
      = (Inr (), snd (update_progress (scripted [] []) (PObjectId 0) (PStr ''Trees'') True saved))"
    by (simp add: prod_eq_iff)
  from update_progress_last_write [OF h1 h3, of False] h1 h2 show ?thesis by simp
qed

text \<open>
  With two saved plans, checking \<^verbatim>\<open>Trees\<close> in the first leaves the second plan and
  the subject of the first as they were, and does set the field.
\<close>

theorem update_progress_frame_witness:
  "docs (snd (update_progress (scripted [] []) (PObjectId 0) (PStr ''Trees'') True two_plans)) ! 1
     = docs two_plans ! 1
   \<and> get_path [''subject'']
        (docs (snd (update_progress (scripted [] []) (PObjectId 0) (PStr ''Trees'') True two_plans)) ! 0)
     = get_path [''subject''] (docs two_plans ! 0)
   \<and> get_path [''progress'', ''Trees'']
        (docs (snd (update_progress (scripted [] []) (PObjectId 0) (PStr ''Trees'') True two_plans)) ! 0)
     = Some (PBool True)
   \<and> get_path [''progress'', ''Trees''] (docs two_plans ! 0) = None"
proof -
  let ?u = "update_progress (scripted [] []) (PObjectId 0) (PStr ''Trees'') True two_plans"
  have len: "length (docs two_plans) = 2" by code_simp
  have id1: "doc_id (docs two_plans ! 1) \<noteq> Some (PObjectId 0)" by code_simp
  have path: "split_dots (progress_path (scripted [] []) (PStr ''Trees'')) = [''progress'', ''Trees'']"
    by code_simp
  have np: "\<not> prefix [''subject''] [''progress'', ''Trees'']"
       "\<not> prefix [''progress'', ''Trees''] [''subject'']"
    by simp_all
  have frame: "\<forall>i < length (docs two_plans).
           (doc_id (docs two_plans ! i) \<noteq> Some (PObjectId 0) \<longrightarrow> docs (snd ?u) ! i = docs two_plans ! i)
         \<and> (\<forall>p. \<not> prefix p (split_dots (progress_path (scripted [] []) (PStr ''Trees'')))
                \<and> \<not> prefix (split_dots (progress_path (scripted [] []) (PStr ''Trees''))) p
                \<longrightarrow> get_path p (docs (snd ?u) ! i) = get_path p (docs two_plans ! i))"
    using update_progress_frame [of "scripted [] []" "PObjectId 0" "PStr ''Trees''" True two_plans
        "fst ?u" "snd ?u"]
    by simp
  from frame len id1 have a: "docs (snd ?u) ! 1 = docs two_plans ! 1" by simp
  from frame len path np have b:
    "get_path [''subject''] (docs (snd ?u) ! 0) = get_path [''subject''] (docs two_plans ! 0)"
    by simp
  have c: "get_path [''progress'', ''Trees''] (docs (snd ?u) ! 0) = Some (PBool True)" by code_simp
  have d: "get_path [''progress'', ''Trees''] (docs two_plans ! 0) = None" by code_simp
  from a b c d show ?thesis by simp
qed

section \<open>The video finder\<close>

text \<open>
  C4: whenever \<open>find_youtube_video\<close> returns, it returns either \<^verbatim>\<open>None\<close>, the
  search having given nothing, or a record with exactly the four fields
  \<^verbatim>\<open>id\<close>, \<^verbatim>\<open>title\<close>, \<^verbatim>\<open>url\<close>, \<^verbatim>\<open>thumbnail\<close>, taken from the first result, the
  \<^verbatim>\<open>url\<close> made from that result's \<^verbatim>\<open>id\<close>.
\<close>

theorem find_youtube_video_complete_or_absent:
  assumes "fst (find_youtube_video e query w) = Inr r"
  shows "(\<exists>results. search_reply e (length (searched w)) query = Inr results
            \<and> \<not> truthy results \<and> r = PNone)
       \<or> (\<exists>results video vid title thumbnails thumbnail.
            search_reply e (length (searched w)) query = Inr results
          \<and> truthy results
          \<and> subscript_0 results = Inr video
          \<and> subscript_str video ''id'' = Inr vid
          \<and> subscript_str video ''title'' = Inr title
          \<and> subscript_str video ''thumbnails'' = Inr thumbnails
          \<and> subscript_0 thumbnails = Inr thumbnail
          \<and> r = PDict [(''id'', vid), (''title'', title),
                       (''url'', PStr (''https://youtube.com/watch?v='' @ py_format (repr_other e) vid)),
                       (''thumbnail'', thumbnail)]
          \<and> is_video_ref r)"
proof -
  from assms obtain results where s: "search_reply e (length (searched w)) query = Inr results"
    and v: "video_of_results (repr_other e) results = Inr r"
    by (auto simp: find_youtube_video_def lookup_outcome_def bind_exn_eq_Inr)
  show ?thesis
  proof (cases "truthy results")
    case False
    with s v show ?thesis by (simp add: video_of_results_def)
  next
    case True
    with v s show ?thesis
      by (auto simp: video_of_results_def bind_exn_eq_Inr)
  qed
qed

text \<open>A search with one result, and a search with none.\<close>

theorem find_youtube_video_complete_or_absent_witness:
  "fst (find_youtube_video (scripted [] [Inr (PList [sample_video])]) ''Regression Machine Learning'' fresh)
     = Inr (PDict [(''id'', PStr ''abc123''), (''title'', PStr ''Linear regression in 10 minutes''),
                   (''url'', PStr ''https://youtube.com/watch?v=abc123''),
                   (''thumbnail'', PStr ''https://i.ytimg.com/vi/abc123/hq.jpg'')])
   \<and> fst (find_youtube_video (scripted [] [Inr (PList [])]) ''Regression Machine Learning'' fresh)
     = Inr PNone"
proof -
  let ?e = "scripted [] [Inr (PList [sample_video])]"
  let ?r = "PDict [(''id'', PStr ''abc123''), (''title'', PStr ''Linear regression in 10 minutes''),
                   (''url'', PStr ''https://youtube.com/watch?v=abc123''),
                   (''thumbnail'', PStr ''https://i.ytimg.com/vi/abc123/hq.jpg'')]"
  have h: "fst (find_youtube_video ?e ''Regression Machine Learning'' fresh) = Inr ?r"
    by code_simp
  have h2: "fst (find_youtube_video (scripted [] [Inr (PList [])]) ''Regression Machine Learning'' fresh)
     = Inr PNone"
    by code_simp
  from find_youtube_video_complete_or_absent [OF h] h h2 show ?thesis by simp
qed

section \<open>Enrichment and the handler\<close>

lemma enrichedI:
  "video = PNone \<or> is_video_ref video \<Longrightarrow> enriched (PDict kvs) (PDict (dict_set kvs ''video'' video))"
  by (simp add: enriched_def dict_get_set)

lemma enrichedD:
  "enriched t t' \<Longrightarrow> \<exists>kvs video. t = PDict kvs \<and> t' = PDict (dict_set kvs ''video'' video)
     \<and> (video = PNone \<or> is_video_ref video)"
  by (cases t) (auto simp: enriched_def split: option.splits)

lemma enriched_name: "enriched t t' \<Longrightarrow> subscript_str t' ''name'' = subscript_str t ''name''"
  by (auto dest!: enrichedD simp: dict_get_set)

lemma enriched_has_video: "enriched t t' \<Longrightarrow> has_video t'"
  by (auto dest!: enrichedD simp: has_video_def dict_get_set)

lemma lookup_raised_append:
  "lookup_raised e n (xs @ ys) = (lookup_raised e n xs \<or> lookup_raised e (n + length xs) ys)"
  by (induction xs arbitrary: n) auto

lemma video_of_results_shape:
  "video_of_results other results = Inr v \<Longrightarrow> v = PNone \<or> is_video_ref v"
  by (auto simp: video_of_results_def bind_exn_eq_Inr split: if_splits)

lemma lookup_outcome_shape:
  "lookup_outcome e n q = Inr v \<Longrightarrow> v = PNone \<or> is_video_ref v"
  by (auto simp: lookup_outcome_def bind_exn_eq_Inr dest: video_of_results_shape)

lemma names_in_append:
  "names_in (xs @ ys) = bind_exn (names_in xs) (\<lambda>a. bind_exn (names_in ys) (\<lambda>b. Inr (a @ b)))"
proof (induction xs)
  case Nil
  show ?case by (cases "names_in ys") simp_all
next
  case (Cons x xs)
  show ?case
    by (cases "subscript_str x ''name''"; cases "names_in xs"; cases "names_in ys")
       (simp_all add: Cons)
qed

lemma names_in_enriched:
  "list_all2 enriched ts ts' \<Longrightarrow> names_in ts' = names_in ts"
  by (induction ts ts' rule: list_all2_induct) (simp_all add: enriched_name)

text \<open>The frame of the loops: only the record of searches grows.\<close>

lemma find_youtube_video_frame:
  "find_youtube_video e q w = (r, w') \<Longrightarrow> w' = w\<lparr>searched := searched w @ [q]\<rparr>"
  by (auto simp: find_youtube_video_def)

lemma enrich_topics_frame:
  "enrich_topics e subject ts w = (r, w') \<Longrightarrow> w' = w\<lparr>searched := searched w'\<rparr>"
proof (induction ts arbitrary: w r w')
  case Nil
  then show ?case by auto
next
  case (Cons t ts)
  show ?case
  proof (cases "subscript_str t ''name''")
    case (Inl x)
    with Cons.prems show ?thesis by auto
  next
    case (Inr name)
    let ?w1 = "w\<lparr>searched := searched w @ [video_query e subject name]\<rparr>"
    show ?thesis
    proof (cases "lookup_outcome e (length (searched w)) (video_query e subject name)")
      case (Inl x)
      with Inr Cons.prems show ?thesis
        by (auto simp: then_do_def find_youtube_video_def lift_def)
    next
      case video: (Inr video)
      show ?thesis
      proof (cases "setitem_str t ''video'' video")
        case (Inl x)
        with Inr video Cons.prems show ?thesis
          by (auto simp: then_do_def find_youtube_video_def lift_def)
      next
        case t': (Inr t')
        obtain r2 w2 where rest: "enrich_topics e subject ts ?w1 = (r2, w2)" by force
        from Cons.IH [OF rest] have "w2 = ?w1\<lparr>searched := searched w2\<rparr>" .
        moreover from Inr video t' rest Cons.prems have "w' = w2"
          by (auto simp: then_do_def find_youtube_video_def lift_def split: sum.splits)
        ultimately show ?thesis by simp
      qed
    qed
  qed
qed

lemma enrich_topics_ok:
  "enrich_topics e subject ts w = (Inr ts', w') \<Longrightarrow>
   \<exists>names. names_in ts = Inr names
     \<and> w' = w\<lparr>searched := searched w @ map (video_query e subject) names\<rparr>
     \<and> \<not> lookup_raised e (length (searched w)) (map (video_query e subject) names)
     \<and> list_all2 enriched ts ts'"
proof (induction ts arbitrary: w ts' w')
  case Nil
  then show ?case by auto
next
  case (Cons t ts)
  from Cons.prems obtain name where name: "subscript_str t ''name'' = Inr name"
    by (cases "subscript_str t ''name''") auto
  let ?q = "video_query e subject name"
  let ?w1 = "w\<lparr>searched := searched w @ [?q]\<rparr>"
  from Cons.prems name obtain video where video: "lookup_outcome e (length (searched w)) ?q = Inr video"
    by (cases "lookup_outcome e (length (searched w)) ?q")
       (auto simp: then_do_def find_youtube_video_def lift_def)
  from Cons.prems name video obtain t' where t': "setitem_str t ''video'' video = Inr t'"
    by (cases "setitem_str t ''video'' video")
       (auto simp: then_do_def find_youtube_video_def lift_def)
  from Cons.prems name video t' obtain rest' where
    rest: "enrich_topics e subject ts ?w1 = (Inr rest', w')" and ts': "ts' = t' # rest'"
    by (cases "enrich_topics e subject ts ?w1")
       (auto simp: then_do_def find_youtube_video_def lift_def split: sum.splits)
  from Cons.IH [OF rest] obtain names where
    n: "names_in ts = Inr names"
    and w': "w' = ?w1\<lparr>searched := searched ?w1 @ map (video_query e subject) names\<rparr>"
    and ok: "\<not> lookup_raised e (length (searched ?w1)) (map (video_query e subject) names)"
    and en: "list_all2 enriched ts rest'"
    by blast
  from t' lookup_outcome_shape [OF video] have "enriched t t'"
    by (cases t) (auto intro: enrichedI)
  with name n w' ok en ts' video show ?case by simp
qed


lemma put_back:
  assumes "py_iter c = Inr items" and "length items' = length items"
    and "\<forall>x \<in> set items. \<exists>kvs. x = PDict kvs"
  shows "py_iter (with_items c items') = Inr items'"
proof (cases c)
  case (PList xs)
  then show ?thesis by simp
next
  case (PDict kvs)
  with assms have "kvs = []" by (cases kvs) auto
  with PDict assms show ?thesis by auto
next
  case (PStr s)
  with assms have "s = []" by (cases s) auto
  with PStr assms show ?thesis by auto
qed (use assms in auto)

lemma enriched_dicts: "list_all2 enriched ts ts' \<Longrightarrow> \<forall>x \<in> set ts. \<exists>kvs. x = PDict kvs"
  by (induction ts ts' rule: list_all2_induct) (auto dest: enrichedD)

lemma subscript_with_field:
  "subscript_str d k = Inr v \<Longrightarrow> subscript_str (with_field d k v') k = Inr v'"
  by (cases d) (simp_all add: dict_get_set)

lemma subscript_is_dict: "subscript_str d k = Inr v \<Longrightarrow> \<exists>kvs. d = PDict kvs"
  by (cases d) simp_all

lemma enrich_weeks_frame:
  "enrich_weeks e subject ws w = (r, w') \<Longrightarrow> w' = w\<lparr>searched := searched w'\<rparr>"
proof (induction ws arbitrary: w r w')
  case Nil
  then show ?case by auto
next
  case (Cons week ws)
  show ?case
  proof (cases "bind_exn (subscript_str week ''topics'') py_iter")
    case (Inl x)
    with Cons.prems show ?thesis
      by (cases "subscript_str week ''topics''") (auto simp: then_do_def lift_def)
  next
    case (Inr items)
    then obtain topics where topics: "subscript_str week ''topics'' = Inr topics"
      and items: "py_iter topics = Inr items"
      by (auto simp: bind_exn_eq_Inr)
    obtain r1 w1 where t: "enrich_topics e subject items w = (r1, w1)" by force
    from enrich_topics_frame [OF t] have w1: "w1 = w\<lparr>searched := searched w1\<rparr>" .
    show ?thesis
    proof (cases r1)
      case (Inl x)
      with topics items t Cons.prems have "w' = w1" by (auto simp: then_do_def lift_def)
      with w1 show ?thesis by simp
    next
      case r1: (Inr items')
      obtain r2 w2 where rest: "enrich_weeks e subject ws w1 = (r2, w2)" by force
      from Cons.IH [OF rest] have "w2 = w1\<lparr>searched := searched w2\<rparr>" .
      moreover from topics items t r1 rest Cons.prems have "w' = w2"
        by (auto simp: then_do_def lift_def split: sum.splits)
      ultimately show ?thesis using w1 by (metis world.update_convs(6) world.surjective world.select_convs(6))
    qed
  qed
qed

lemma enrich_weeks_ok:
  "enrich_weeks e subject ws w = (Inr ws', w') \<Longrightarrow>
   \<exists>ts names ts'. topics_in ws = Inr ts \<and> names_in ts = Inr names
     \<and> w' = w\<lparr>searched := searched w @ map (video_query e subject) names\<rparr>
     \<and> \<not> lookup_raised e (length (searched w)) (map (video_query e subject) names)
     \<and> topics_in ws' = Inr ts' \<and> list_all2 enriched ts ts'
     \<and> length ws' = length ws \<and> (\<forall>x \<in> set ws. \<exists>kvs. x = PDict kvs)"
proof (induction ws arbitrary: w ws' w')
  case Nil
  then show ?case by auto
next
  case (Cons week ws)
  let ?q = "video_query e subject"
  from Cons.prems obtain topics where topics: "subscript_str week ''topics'' = Inr topics"
    by (cases "subscript_str week ''topics''") auto
  from Cons.prems topics obtain items where items: "py_iter topics = Inr items"
    by (cases "py_iter topics") auto
  from Cons.prems topics items obtain items' w1 where
    t: "enrich_topics e subject items w = (Inr items', w1)"
    by (cases "enrich_topics e subject items w"; cases "fst (enrich_topics e subject items w)")
       (auto simp: then_do_def lift_def)
  from Cons.prems topics items t obtain rest' where
    rest: "enrich_weeks e subject ws w1 = (Inr rest', w')"
    and ws': "ws' = with_field week ''topics'' (with_items topics items') # rest'"
    by (cases "enrich_weeks e subject ws w1"; cases "fst (enrich_weeks e subject ws w1)")
       (auto simp: then_do_def lift_def)
  from enrich_topics_ok [OF t] obtain names1 where
    n1: "names_in items = Inr names1"
    and w1: "w1 = w\<lparr>searched := searched w @ map ?q names1\<rparr>"
    and ok1: "\<not> lookup_raised e (length (searched w)) (map ?q names1)"
    and en1: "list_all2 enriched items items'"
    by blast
  from Cons.IH [OF rest] obtain ts2 names2 ts2' where
    t2: "topics_in ws = Inr ts2" and n2: "names_in ts2 = Inr names2"
    and w': "w' = w1\<lparr>searched := searched w1 @ map ?q names2\<rparr>"
    and ok2: "\<not> lookup_raised e (length (searched w1)) (map ?q names2)"
    and t2': "topics_in rest' = Inr ts2'" and en2: "list_all2 enriched ts2 ts2'"
    and len: "length rest' = length ws" and dicts: "\<forall>x \<in> set ws. \<exists>kvs. x = PDict kvs"
    by blast
  from en1 have len1: "length items' = length items" by (simp add: list_all2_lengthD)
  from put_back [OF items len1 enriched_dicts [OF en1]]
  have pb: "py_iter (with_items topics items') = Inr items'" .
  have a: "topics_in (week # ws) = Inr (items @ ts2)"
    using topics items t2 by simp
  have b: "names_in (items @ ts2) = Inr (names1 @ names2)"
    using n1 n2 by (simp add: names_in_append)
  have c: "w' = w\<lparr>searched := searched w @ map ?q (names1 @ names2)\<rparr>"
    using w1 w' by simp
  have d: "\<not> lookup_raised e (length (searched w)) (map ?q (names1 @ names2))"
    using ok1 ok2 w1 by (simp add: lookup_raised_append)
  have f: "topics_in ws' = Inr (items' @ ts2')"
    using ws' subscript_with_field [OF topics] pb t2' by simp
  have g: "list_all2 enriched (items @ ts2) (items' @ ts2')"
    using en1 en2 by (simp add: list_all2_appendI)
  have h: "length ws' = length (week # ws)" using ws' len by simp
  have i: "\<forall>x \<in> set (week # ws). \<exists>kvs. x = PDict kvs"
    using dicts subscript_is_dict [OF topics] by simp
  from a b c d f g h i show ?case by blast
qed

lemma enrich_frame:
  "enrich e subject plan w = (r, w') \<Longrightarrow> w' = w\<lparr>searched := searched w'\<rparr>"
proof (cases "bind_exn (subscript_str plan ''weeks'') py_iter")
  case (Inl x)
  assume "enrich e subject plan w = (r, w')"
  with Inl show ?thesis
    by (cases "subscript_str plan ''weeks''") (auto simp: enrich_def then_do_def lift_def)
next
  case (Inr items)
  assume run: "enrich e subject plan w = (r, w')"
  from Inr obtain weeks where weeks: "subscript_str plan ''weeks'' = Inr weeks"
    and items: "py_iter weeks = Inr items"
    by (auto simp: bind_exn_eq_Inr)
  obtain r1 w1 where t: "enrich_weeks e subject items w = (r1, w1)" by force
  from enrich_weeks_frame [OF t] have "w1 = w\<lparr>searched := searched w1\<rparr>" .
  moreover from weeks items t run have "w' = w1"
    by (auto simp: enrich_def then_do_def lift_def split: sum.splits)
  ultimately show ?thesis by simp
qed

lemma enrich_ok:
  assumes "enrich e subject plan w = (Inr plan', w')"
  shows "\<exists>names ts'. topic_names plan = Inr names
     \<and> w' = w\<lparr>searched := searched w @ map (video_query e subject) names\<rparr>
     \<and> \<not> lookup_raised e (length (searched w)) (map (video_query e subject) names)
     \<and> plan_topics plan' = Inr ts' \<and> list_all has_video ts' \<and> names_in ts' = Inr names
     \<and> (\<exists>kvs. plan' = PDict kvs)"
proof -
  from assms obtain weeks where weeks: "subscript_str plan ''weeks'' = Inr weeks"
    by (cases "subscript_str plan ''weeks''") (auto simp: enrich_def)
  from assms weeks obtain items where items: "py_iter weeks = Inr items"
    by (cases "py_iter weeks") (auto simp: enrich_def)
  from assms weeks items obtain items' where
    t: "enrich_weeks e subject items w = (Inr items', w')"
    and plan': "plan' = with_field plan ''weeks'' (with_items weeks items')"
    by (cases "enrich_weeks e subject items w"; cases "fst (enrich_weeks e subject items w)")
       (auto simp: enrich_def then_do_def lift_def)
  from enrich_weeks_ok [OF t] obtain ts names ts' where
    a: "topics_in items = Inr ts" and b: "names_in ts = Inr names"
    and c: "w' = w\<lparr>searched := searched w @ map (video_query e subject) names\<rparr>"
    and d: "\<not> lookup_raised e (length (searched w)) (map (video_query e subject) names)"
    and f: "topics_in items' = Inr ts'" and g: "list_all2 enriched ts ts'"
    and h: "length items' = length items" and i: "\<forall>x \<in> set items. \<exists>kvs. x = PDict kvs"
    by blast
  from put_back [OF items h i] have pb: "py_iter (with_items weeks items') = Inr items'" .
  have 1: "topic_names plan = Inr names"
    using weeks items a b by (simp add: topic_names_def plan_topics_def)
  have 2: "plan_topics plan' = Inr ts'"
    using plan' subscript_with_field [OF weeks] pb f by (simp add: plan_topics_def)
  have 3: "list_all has_video ts'"
    using g by (induction ts ts' rule: list_all2_induct) (auto dest: enriched_has_video)
  have 4: "names_in ts' = Inr names"
    using names_in_enriched [OF g] b by simp
  have 5: "\<exists>kvs. plan' = PDict kvs"
    using plan' subscript_is_dict [OF weeks] by auto
  from 1 c d 2 3 4 5 show ?thesis by blast
qed

lemma generate_study_plan_world:
  "snd (generate_study_plan e subject current_level target_level hours_per_week w)
     = w\<lparr>invoked := invoked w @
          [\<lparr>pv_subject = subject, pv_current_level = current_level,
            pv_target_level = target_level, pv_hours_per_week = hours_per_week,
            pv_weeks = 4\<rparr>]\<rparr>"
  by (simp add: generate_study_plan_def Let_def split: sum.splits)

lemma insert_one_Inl: "insert_one doc w = (Inl x, w') \<Longrightarrow> w' = w"
  by (auto simp: insert_one_def Let_def split: pyval.splits if_splits)

lemma insert_one_Inr:
  "insert_one doc w = (Inr i, w') \<Longrightarrow> w' = w\<lparr>docs := docs w', next_oid := next_oid w'\<rparr>"
  by (auto simp: insert_one_def Let_def split: pyval.splits if_splits)

lemma plan_topics_with_id:
  "plan_topics (PDict (dict_set kvs ''_id'' i)) = plan_topics (PDict kvs)"
  by (simp add: plan_topics_def dict_get_set)

text \<open>A run of the \<^verbatim>\<open>try\<close> body that raises.\<close>

lemma try_generate_Inl:
  assumes "try_generate e subject current_level target_level hours_per_week w = (Inl x, w')"
  shows "w' = w\<lparr>invoked := invoked w', searched := searched w'\<rparr>"
proof -
  let ?g = "generate_study_plan e subject current_level target_level hours_per_week w"
  obtain r0 w1 where g: "?g = (r0, w1)" by force
  from generate_study_plan_world [of e subject current_level target_level hours_per_week w] g
  have w1: "w1 = w\<lparr>invoked := invoked w1\<rparr>" by simp
  show ?thesis
  proof (cases r0)
    case (Inl y)
    with g assms have "w' = w1" by (simp add: try_generate_def then_do_def)
    with w1 show ?thesis by simp
  next
    case (Inr plan0)
    obtain r1 w2 where en: "enrich e subject plan0 w1 = (r1, w2)" by force
    from enrich_frame [OF en] w1 have w2: "w2 = w\<lparr>invoked := invoked w2, searched := searched w2\<rparr>"
      by (metis (no_types) world.surjective world.update_convs(5,6) world.select_convs(5,6))
    show ?thesis
    proof (cases r1)
      case (Inl y)
      with Inr g en assms have "w' = w2" by (simp add: try_generate_def then_do_def)
      with w2 show ?thesis by simp
    next
      case plan: (Inr plan)
      show ?thesis
      proof (cases "as_mapping plan")
        case (Inl y)
        with plan Inr g en assms have "w' = w2" by (simp add: try_generate_def then_do_def lift_def)
        with w2 show ?thesis by simp
      next
        case kvs: (Inr kvs)
        let ?doc = "PDict (dict_set (dict_set (dict_set kvs ''subject'' (PStr subject))
                  ''created_at'' (PDatetime (clock e))) ''progress'' (PDict []))"
        obtain r3 w3 where s: "insert_one ?doc w2 = (r3, w3)" by force
        show ?thesis
        proof (cases r3)
          case (Inl y)
          with s have "w3 = w2" by (simp add: insert_one_Inl)
          moreover from Inl kvs plan Inr g en s assms have "w' = w3"
            by (simp add: try_generate_def then_do_def lift_def save_plan_def)
          ultimately show ?thesis using w2 by simp
        next
          case (Inr i)
          with kvs plan \<open>r0 = Inr plan0\<close> g en s assms show ?thesis
            by (simp add: try_generate_def then_do_def lift_def save_plan_def)
        qed
      qed
    qed
  qed
qed

text \<open>A run of the \<^verbatim>\<open>try\<close> body that returns.\<close>

lemma try_generate_Inr:
  assumes "try_generate e subject current_level target_level hours_per_week w = (Inr u, w')"
  shows "\<exists>plan ts names.
      session_plan w' = Some plan \<and> shown w' = Some Success
    \<and> plan_topics plan = Inr ts \<and> list_all has_video ts \<and> names_in ts = Inr names
    \<and> searched w' = searched w @ map (video_query e subject) names
    \<and> \<not> lookup_raised e (length (searched w)) (map (video_query e subject) names)"
proof -
  let ?g = "generate_study_plan e subject current_level target_level hours_per_week w"
  obtain r0 w1 where g: "?g = (r0, w1)" by force
  from generate_study_plan_world [of e subject current_level target_level hours_per_week w] g
  have w1: "searched w1 = searched w" by auto
  from g assms obtain plan0 where r0: "r0 = Inr plan0"
    by (cases r0) (auto simp: try_generate_def then_do_def)
  obtain r1 w2 where en: "enrich e subject plan0 w1 = (r1, w2)" by force
  from g r0 en assms obtain plan where r1: "r1 = Inr plan"
    by (cases r1) (auto simp: try_generate_def then_do_def)
  from enrich_ok [OF en [unfolded r1]] obtain names ts kvs where
    a: "w2 = w1\<lparr>searched := searched w1 @ map (video_query e subject) names\<rparr>"
    and b: "\<not> lookup_raised e (length (searched w1)) (map (video_query e subject) names)"
    and c: "plan_topics plan = Inr ts" and d: "list_all has_video ts"
    and f: "names_in ts = Inr names" and kvs: "plan = PDict kvs"
    by blast
  let ?doc = "PDict (dict_set (dict_set (dict_set kvs ''subject'' (PStr subject))
                  ''created_at'' (PDatetime (clock e))) ''progress'' (PDict []))"
  obtain r3 w3 where s: "insert_one ?doc w2 = (r3, w3)" by force
  from g r0 en r1 kvs s assms obtain i where r3: "r3 = Inr i"
    by (cases r3) (auto simp: try_generate_def then_do_def lift_def save_plan_def)
  from insert_one_Inr [OF s [unfolded r3]] have w3: "searched w3 = searched w2"
    by (metis world.select_convs(6) world.surjective world.update_convs(1,2))
  from g r0 en r1 kvs s r3 assms have
    w': "w' = w3\<lparr>session_plan := Some (PDict (dict_set kvs ''_id'' i)), shown := Some Success\<rparr>"
    by (auto simp: try_generate_def then_do_def lift_def save_plan_def)
  have "plan_topics (PDict (dict_set kvs ''_id'' i)) = Inr ts"
    using c kvs by (simp add: plan_topics_with_id)
  with w' w3 a w1 b d f show ?thesis by simp
qed

lemma on_generate_failed:
  assumes "fst (try_generate e subject current_level target_level hours_per_week w) = Inl x"
  shows "on_generate e subject current_level target_level hours_per_week w
       = w\<lparr>invoked := invoked (on_generate e subject current_level target_level hours_per_week w),
            searched := searched (on_generate e subject current_level target_level hours_per_week w),
            shown := Some (Error x)\<rparr>"
proof -
  obtain w' where t: "try_generate e subject current_level target_level hours_per_week w = (Inl x, w')"
    using assms by (cases "try_generate e subject current_level target_level hours_per_week w") auto
  from try_generate_Inl [OF t] have "w' = w\<lparr>invoked := invoked w', searched := searched w'\<rparr>" .
  moreover from t have "on_generate e subject current_level target_level hours_per_week w
       = w'\<lparr>shown := Some (Error x)\<rparr>"
    by (simp add: on_generate_def)
  ultimately show ?thesis
    by (metis (no_types) world.surjective world.update_convs(5,6,7) world.select_convs(5,6))
qed

lemma on_generate_succeeded_iff:
  "shown (on_generate e subject current_level target_level hours_per_week w) = Some Success
   \<longleftrightarrow> fst (try_generate e subject current_level target_level hours_per_week w) = Inr ()"
proof (cases "try_generate e subject current_level target_level hours_per_week w")
  case (Pair r w')
  show ?thesis
  proof (cases r)
    case (Inl x)
    with Pair show ?thesis by (simp add: on_generate_def)
  next
    case (Inr u)
    with Pair try_generate_Inr [of e subject current_level target_level hours_per_week w u w']
    show ?thesis by (auto simp: on_generate_def)
  qed
qed

lemma try_generate_invoked:
  "invoked (snd (try_generate e subject current_level target_level hours_per_week w))
     = invoked w @ [\<lparr>pv_subject = subject, pv_current_level = current_level,
            pv_target_level = target_level, pv_hours_per_week = hours_per_week,
            pv_weeks = 4\<rparr>]"
proof -
  let ?vars = "\<lparr>pv_subject = subject, pv_current_level = current_level,
            pv_target_level = target_level, pv_hours_per_week = hours_per_week,
            pv_weeks = 4\<rparr>"
  let ?t = "try_generate e subject current_level target_level hours_per_week w"
  obtain r w' where t: "?t = (r, w')" by force
  let ?g = "generate_study_plan e subject current_level target_level hours_per_week w"
  obtain r0 w1 where g: "?g = (r0, w1)" by force
  from generate_study_plan_world [of e subject current_level target_level hours_per_week w] g
  have w1: "invoked w1 = invoked w @ [?vars]" by auto
  show ?thesis
  proof (cases r0)
    case (Inl y)
    with g t have "w' = w1" by (simp add: try_generate_def then_do_def)
    with w1 t show ?thesis by simp
  next
    case (Inr plan0)
    obtain r1 w2 where en: "enrich e subject plan0 w1 = (r1, w2)" by force
    from enrich_frame [OF en] have "invoked w2 = invoked w1"
      by (metis world.select_convs(5) world.surjective world.update_convs(6))
    with w1 have w2: "invoked w2 = invoked w @ [?vars]" by simp
    show ?thesis
    proof (cases r1)
      case (Inl y)
      with Inr g en t have "w' = w2" by (simp add: try_generate_def then_do_def)
      with w2 t show ?thesis by simp
    next
      case plan: (Inr plan)
      show ?thesis
      proof (cases "as_mapping plan")
        case (Inl y)
        with plan Inr g en t have "w' = w2" by (simp add: try_generate_def then_do_def lift_def)
        with w2 t show ?thesis by simp
      next
        case kvs: (Inr kvs)
        let ?doc = "PDict (dict_set (dict_set (dict_set kvs ''subject'' (PStr subject))
                  ''created_at'' (PDatetime (clock e))) ''progress'' (PDict []))"
        obtain r3 w3 where s: "insert_one ?doc w2 = (r3, w3)" by force
        show ?thesis
        proof (cases r3)
          case (Inl y)
          with s have "w3 = w2" by (simp add: insert_one_Inl)
          moreover from Inl kvs plan Inr g en s t have "w' = w3"
            by (simp add: try_generate_def then_do_def lift_def save_plan_def)
          ultimately show ?thesis using w2 t by simp
        next
          case i: (Inr i)
          from insert_one_Inr [OF s [unfolded i]] have "invoked w3 = invoked w2"
            by (metis world.select_convs(5) world.surjective world.update_convs(1,2))
          moreover from i kvs plan Inr g en s t have "invoked w' = invoked w3"
            by (auto simp: try_generate_def then_do_def lift_def save_plan_def)
          ultimately show ?thesis using w2 t by simp
        qed
      qed
    qed
  qed
qed

lemma on_generate_invoked:
  "invoked (on_generate e subject current_level target_level hours_per_week w)
     = invoked (snd (try_generate e subject current_level target_level hours_per_week w))"
  by (cases "try_generate e subject current_level target_level hours_per_week w")
     (auto simp: on_generate_def split: sum.splits)

text \<open>
  C2: if any video lookup made during a run of the handler raises, the run ends in
  the error banner and nothing is saved: the collection and its identifier counter are
  as before the run, and so is the plan of the session. The videos found for earlier
  topics are lost with the local plan.
\<close>

theorem lookup_failure_aborts:
  assumes "lookup_raised e (length (searched w))
             (drop (length (searched w))
                (searched (on_generate e subject current_level target_level hours_per_week w)))"
  shows "(\<exists>x. shown (on_generate e subject current_level target_level hours_per_week w)
                = Some (Error x))
       \<and> docs (on_generate e subject current_level target_level hours_per_week w) = docs w
       \<and> next_oid (on_generate e subject current_level target_level hours_per_week w) = next_oid w
       \<and> session_plan (on_generate e subject current_level target_level hours_per_week w)
           = session_plan w"
proof (cases "try_generate e subject current_level target_level hours_per_week w")
  case (Pair r w')
  show ?thesis
  proof (cases r)
    case (Inl x)
    with Pair have "fst (try_generate e subject current_level target_level hours_per_week w) = Inl x"
      by simp
    from on_generate_failed [OF this] show ?thesis
      by (metis world.select_convs(1,2,3,7) world.surjective world.update_convs(5,6,7))
  next
    case (Inr u)
    with Pair try_generate_Inr [of e subject current_level target_level hours_per_week w u w']
    obtain names where "searched w' = searched w @ map (video_query e subject) names"
      and "\<not> lookup_raised e (length (searched w)) (map (video_query e subject) names)"
      by blast
    moreover from Pair Inr have "on_generate e subject current_level target_level hours_per_week w = w'"
      by (simp add: on_generate_def)
    ultimately show ?thesis using assms by simp
  qed
qed

text \<open>
  C9, amended: if the body of the \<^verbatim>\<open>try\<close> raises (in generation, enrichment or the
  first save), the handler shows the error and leaves the plan of the session as it was
  before the attempt: absent if it was absent, the earlier plan if there was one.
  Nothing is saved.
\<close>

theorem failed_generation_keeps_plan:
  assumes "fst (try_generate e subject current_level target_level hours_per_week w) = Inl x"
  shows "session_plan (on_generate e subject current_level target_level hours_per_week w)
           = session_plan w
       \<and> shown (on_generate e subject current_level target_level hours_per_week w)
           = Some (Error x)
       \<and> docs (on_generate e subject current_level target_level hours_per_week w) = docs w"
  using on_generate_failed [OF assms]
  by (metis world.select_convs(1,3,7) world.surjective world.update_convs(5,6,7))

text \<open>
  C5: on the scenario input the model is called once more, with the four values and
  the week count 4; and when the run succeeds, the searches made during the run are,
  in order, one for each topic of the resulting plan, each with the query made of the
  topic's name, a space and \<^verbatim>\<open>Machine Learning\<close>.
\<close>

theorem scenario_calls:
  "invoked (on_generate e ''Machine Learning'' ''Beginner'' ''Intermediate'' 10 w)
     = invoked w @ [\<lparr>pv_subject = ''Machine Learning'', pv_current_level = ''Beginner'',
                     pv_target_level = ''Intermediate'', pv_hours_per_week = 10, pv_weeks = 4\<rparr>]
   \<and> (shown (on_generate e ''Machine Learning'' ''Beginner'' ''Intermediate'' 10 w) = Some Success
        \<longrightarrow> (\<exists>plan ts names.
               session_plan (on_generate e ''Machine Learning'' ''Beginner'' ''Intermediate'' 10 w)
                 = Some plan
             \<and> plan_topics plan = Inr ts \<and> names_in ts = Inr names
             \<and> searched (on_generate e ''Machine Learning'' ''Beginner'' ''Intermediate'' 10 w)
                 = searched w
                   @ map (\<lambda>name. py_format (repr_other e) name @ '' Machine Learning'') names))"
proof -
  let ?w' = "on_generate e ''Machine Learning'' ''Beginner'' ''Intermediate'' 10 w"
  let ?t = "try_generate e ''Machine Learning'' ''Beginner'' ''Intermediate'' 10 w"
  have a: "invoked ?w' = invoked w @ [\<lparr>pv_subject = ''Machine Learning'', pv_current_level = ''Beginner'',
                     pv_target_level = ''Intermediate'', pv_hours_per_week = 10, pv_weeks = 4\<rparr>]"
    by (simp only: on_generate_invoked try_generate_invoked)
  have b: "\<exists>plan ts names. session_plan ?w' = Some plan
             \<and> plan_topics plan = Inr ts \<and> names_in ts = Inr names
             \<and> searched ?w' = searched w
                   @ map (\<lambda>name. py_format (repr_other e) name @ '' Machine Learning'') names"
    if "shown ?w' = Some Success"
  proof -
    from that have "fst ?t = Inr ()" by (simp only: on_generate_succeeded_iff)
    then obtain w1 where t: "?t = (Inr (), w1)" by (cases ?t) auto
    then have "?w' = w1" by (simp add: on_generate_def)
    with try_generate_Inr [OF t] show ?thesis
      by (auto simp: video_query_def)
  qed
  from a b show ?thesis by blast
qed

text \<open>
  C10: after a successful run of the handler, every topic that the loops of the page
  meet in the plan of the session has the key \<^verbatim>\<open>video\<close>, holding \<^verbatim>\<open>None\<close> or a
  complete video record.
\<close>

theorem enriched_topics_have_video:
  assumes "shown (on_generate e subject current_level target_level hours_per_week w) = Some Success"
  shows "\<exists>plan ts. session_plan (on_generate e subject current_level target_level hours_per_week w)
                     = Some plan
           \<and> plan_topics plan = Inr ts \<and> list_all has_video ts"
proof -
  let ?t = "try_generate e subject current_level target_level hours_per_week w"
  from assms have "fst ?t = Inr ()" by (simp only: on_generate_succeeded_iff)
  then obtain w1 where t: "?t = (Inr (), w1)" by (cases ?t) auto
  then have "on_generate e subject current_level target_level hours_per_week w = w1"
    by (simp add: on_generate_def)
  with try_generate_Inr [OF t] show ?thesis by auto
qed

section \<open>The progress bar\<close>

lemma py_len_iter: "py_iter v = Inr items \<Longrightarrow> py_len v = Inr (length items)"
  by (cases v) auto

lemma total_topics_count: "topics_in ws = Inr ts \<Longrightarrow> total_topics ws = Inr (length ts)"
proof (induction ws arbitrary: ts)
  case Nil
  then show ?case by simp
next
  case (Cons week ws)
  from Cons.prems obtain topics items more where
    "subscript_str week ''topics'' = Inr topics" "py_iter topics = Inr items"
    "topics_in ws = Inr more" "ts = items @ more"
    by (auto simp: bind_exn_eq_Inr)
  with Cons.IH [of more] show ?case by (simp add: py_len_iter)
qed

lemma names_in_append_Inr:
  "names_in (xs @ ys) = Inr names \<Longrightarrow>
   \<exists>a b. names_in xs = Inr a \<and> names_in ys = Inr b \<and> names = a @ b"
  by (auto simp: names_in_append bind_exn_eq_Inr)

lemma hashable_get: "hashable name \<Longrightarrow> progress_get prog name = Inr (is_checked prog name)"
  by (cases "hash_key name") (auto simp: hashable_def progress_get_def is_checked_def)

lemma completed_in_count:
  "names_in ts = Inr names \<Longrightarrow> list_all hashable names \<Longrightarrow>
   completed_in prog ts = Inr (length (filter (is_checked prog) names))"
proof (induction ts arbitrary: names)
  case Nil
  then show ?case by simp
next
  case (Cons t ts)
  from Cons.prems(1) obtain name more where
    n: "subscript_str t ''name'' = Inr name" "names_in ts = Inr more" "names = name # more"
    by (auto simp: bind_exn_eq_Inr)
  with Cons.prems(2) have "hashable name" "list_all hashable more" by simp_all
  with n Cons.IH [of more] show ?case by (simp add: hashable_get)
qed

lemma completed_topics_count:
  "topics_in ws = Inr ts \<Longrightarrow> names_in ts = Inr names \<Longrightarrow> list_all hashable names \<Longrightarrow>
   completed_topics prog ws = Inr (length (filter (is_checked prog) names))"
proof (induction ws arbitrary: ts names)
  case Nil
  then show ?case by simp
next
  case (Cons week ws)
  from Cons.prems(1) obtain topics items more where
    t: "subscript_str week ''topics'' = Inr topics" "py_iter topics = Inr items"
    "topics_in ws = Inr more" "ts = items @ more"
    by (auto simp: bind_exn_eq_Inr)
  with Cons.prems(2) obtain a b where
    n: "names_in items = Inr a" "names_in more = Inr b" "names = a @ b"
    by (auto dest: names_in_append_Inr)
  with Cons.prems(3) have h: "list_all hashable a" "list_all hashable b" by simp_all
  from completed_in_count [OF n(1) h(1)] Cons.IH [OF t(3) n(2) h(2)] t n
  show ?case by simp
qed

lemma names_in_length: "names_in ts = Inr names \<Longrightarrow> length names = length ts"
  by (induction ts arbitrary: names) (auto simp: bind_exn_eq_Inr)

text \<open>
  C3: for a plan whose topic names can be read and used as keys, and for every
  progress mapping, the fraction shown is the number of topic names, over all weeks,
  that the mapping sends to \<^verbatim>\<open>True\<close>, divided by the number of topics; it is 0 when
  no topic is checked, and 0, without a division, when there is no topic.
\<close>

theorem display_progress_fraction:
  assumes "topic_names plan = Inr names" and "list_all hashable names"
  shows "display_progress plan prog
           = Inr (if names = [] then 0
                  else of_nat (length (filter (is_checked prog) names)) / of_nat (length names))
       \<and> (filter (is_checked prog) names = [] \<longrightarrow> display_progress plan prog = Inr 0)
       \<and> (names = [] \<longrightarrow> display_progress plan prog = Inr 0)"
proof -
  from assms(1) obtain weeks ws ts where
    w: "subscript_str plan ''weeks'' = Inr weeks" "py_iter weeks = Inr ws"
    and t: "topics_in ws = Inr ts" and n: "names_in ts = Inr names"
    by (auto simp: topic_names_def plan_topics_def bind_exn_eq_Inr)
  from names_in_length [OF n] have len: "length ts = length names" by simp
  from w total_topics_count [OF t] completed_topics_count [OF t n assms(2)] len
  have "display_progress plan prog
           = Inr (if names = [] then 0
                  else of_nat (length (filter (is_checked prog) names)) / of_nat (length names))"
    by (simp add: display_progress_def)
  then show ?thesis by auto
qed

section \<open>The properties on concrete runs\<close>

text \<open>
  In \<open>flaky_env\<close> the search for the second topic raises: the run shows the error,
  and the store, empty before, is empty after it.
\<close>

theorem lookup_failure_aborts_witness:
  "lookup_raised flaky_env (length (searched (init_session fresh)))
     (drop (length (searched (init_session fresh)))
        (searched (ml_run flaky_env (init_session fresh))))
   \<and> (\<exists>x. shown (ml_run flaky_env (init_session fresh)) = Some (Error x))
   \<and> docs (ml_run flaky_env (init_session fresh)) = docs (init_session fresh)
   \<and> next_oid (ml_run flaky_env (init_session fresh)) = next_oid (init_session fresh)
   \<and> session_plan (ml_run flaky_env (init_session fresh)) = session_plan (init_session fresh)
   \<and> searched (ml_run flaky_env (init_session fresh))
        = [''Regression Machine Learning'', ''Trees Machine Learning'']"
proof -
  have h: "lookup_raised flaky_env (length (searched (init_session fresh)))
     (drop (length (searched (init_session fresh)))
        (searched (on_generate flaky_env ''Machine Learning'' ''Beginner'' ''Intermediate'' 10
                     (init_session fresh))))"
    by code_simp
  have s: "searched (ml_run flaky_env (init_session fresh))
        = [''Regression Machine Learning'', ''Trees Machine Learning'']"
    by code_simp
  from lookup_failure_aborts [OF h] h s show ?thesis by (simp add: ml_run_def)
qed

text \<open>
  C9, as the claim states it, fails: a first run succeeds and leaves its plan in the
  session; a second run raises (the model is unavailable), and the plan of the first
  run is still there, so the page goes on showing it.
\<close>

theorem failed_generation_keeps_earlier_plan:
  "shown (ml_run good_env (ml_run good_env (init_session fresh)))
     = Some (Error (Raised ''model unavailable''))
   \<and> map_option truthy (session_plan (ml_run good_env (init_session fresh))) = Some True
   \<and> map_option truthy (session_plan (ml_run good_env (ml_run good_env (init_session fresh))))
       = Some True
   \<and> session_plan (ml_run good_env (ml_run good_env (init_session fresh))) \<noteq> Some PNone"
  by code_simp

text \<open>The same two runs: the failed second run leaves plan and store as the first made them.\<close>

theorem failed_generation_keeps_plan_witness:
  "fst (try_generate good_env ''Machine Learning'' ''Beginner'' ''Intermediate'' 10
          (ml_run good_env (init_session fresh))) = Inl (Raised ''model unavailable'')
   \<and> session_plan (ml_run good_env (ml_run good_env (init_session fresh)))
       = session_plan (ml_run good_env (init_session fresh))
   \<and> shown (ml_run good_env (ml_run good_env (init_session fresh)))
       = Some (Error (Raised ''model unavailable''))
   \<and> docs (ml_run good_env (ml_run good_env (init_session fresh)))
       = docs (ml_run good_env (init_session fresh))"
proof -
  have h: "fst (try_generate good_env ''Machine Learning'' ''Beginner'' ''Intermediate'' 10
          (ml_run good_env (init_session fresh))) = Inl (Raised ''model unavailable'')"
    by code_simp
  from failed_generation_keeps_plan [OF h] h show ?thesis
    by (simp add: ml_run_def [of good_env "ml_run good_env (init_session fresh)"])
qed

text \<open>The scenario in \<open>good_env\<close>: one call of the model, one search for each of the two topics.\<close>

theorem scenario_calls_witness:
  "shown (ml_run good_env (init_session fresh)) = Some Success
   \<and> invoked (ml_run good_env (init_session fresh))
       = invoked (init_session fresh)
         @ [\<lparr>pv_subject = ''Machine Learning'', pv_current_level = ''Beginner'',
             pv_target_level = ''Intermediate'', pv_hours_per_week = 10, pv_weeks = 4\<rparr>]
   \<and> (\<exists>plan ts names.
         session_plan (ml_run good_env (init_session fresh)) = Some plan
       \<and> plan_topics plan = Inr ts \<and> names_in ts = Inr names
       \<and> searched (ml_run good_env (init_session fresh))
           = searched (init_session fresh)
             @ map (\<lambda>name. py_format (repr_other good_env) name @ '' Machine Learning'') names)
   \<and> searched (ml_run good_env (init_session fresh))
       = [''Regression Machine Learning'', ''Trees Machine Learning'']"
proof -
  have h: "shown (on_generate good_env ''Machine Learning'' ''Beginner'' ''Intermediate'' 10
             (init_session fresh)) = Some Success"
    by code_simp
  have s: "searched (ml_run good_env (init_session fresh))
       = [''Regression Machine Learning'', ''Trees Machine Learning'']"
    by code_simp
  from scenario_calls [of good_env "init_session fresh"] h s show ?thesis
    by (simp add: ml_run_def)
qed

text \<open>After that run the first topic holds the record of the video found, the second \<^verbatim>\<open>None\<close>.\<close>

theorem enriched_topics_have_video_witness:
  "shown (ml_run good_env (init_session fresh)) = Some Success
   \<and> (\<exists>plan ts. session_plan (ml_run good_env (init_session fresh)) = Some plan
         \<and> plan_topics plan = Inr ts \<and> list_all has_video ts)
   \<and> (case session_plan (ml_run good_env (init_session fresh)) of
         None \<Rightarrow> []
       | Some plan \<Rightarrow>
           (case plan_topics plan of
              Inl x \<Rightarrow> []
            | Inr ts \<Rightarrow> map (\<lambda>t. subscript_str t ''video'') ts))
       = [Inr (PDict [(''id'', PStr ''abc123''),
                      (''title'', PStr ''Linear regression in 10 minutes''),
                      (''url'', PStr ''https://youtube.com/watch?v=abc123''),
                      (''thumbnail'', PStr ''https://i.ytimg.com/vi/abc123/hq.jpg'')]),
          Inr PNone]"
proof -
  have h: "shown (on_generate good_env ''Machine Learning'' ''Beginner'' ''Intermediate'' 10
             (init_session fresh)) = Some Success"
    by code_simp
  have v: "(case session_plan (ml_run good_env (init_session fresh)) of
         None \<Rightarrow> []
       | Some plan \<Rightarrow>
           (case plan_topics plan of
              Inl x \<Rightarrow> []
            | Inr ts \<Rightarrow> map (\<lambda>t. subscript_str t ''video'') ts))
       = [Inr (PDict [(''id'', PStr ''abc123''),
                      (''title'', PStr ''Linear regression in 10 minutes''),
                      (''url'', PStr ''https://youtube.com/watch?v=abc123''),
                      (''thumbnail'', PStr ''https://i.ytimg.com/vi/abc123/hq.jpg'')]),
          Inr PNone]"
    by code_simp
  from enriched_topics_have_video [OF h] h v show ?thesis
    by (simp add: ml_run_def)
qed

text \<open>Two topics, one of them checked: one half. None checked: zero.\<close>

theorem display_progress_fraction_witness:
  "topic_names two_topics = Inr [PStr ''Regression'', PStr ''Trees'']
   \<and> list_all hashable [PStr ''Regression'', PStr ''Trees'']
   \<and> display_progress two_topics [PStr ''Trees'' \<mapsto> True] = Inr (1 / 2)
   \<and> display_progress two_topics Map.empty = Inr 0"
proof -
  have h1: "topic_names two_topics = Inr [PStr ''Regression'', PStr ''Trees'']"
    by code_simp
  have h2: "list_all hashable [PStr ''Regression'', PStr ''Trees'']"
    by code_simp
  have c: "filter (is_checked [PStr ''Trees'' \<mapsto> True]) [PStr ''Regression'', PStr ''Trees'']
             = [PStr ''Trees'']"
    by (simp add: is_checked_def progress_get_def)
  have d: "filter (is_checked Map.empty) [PStr ''Regression'', PStr ''Trees''] = []"
    by (simp add: is_checked_def progress_get_def)
  from display_progress_fraction [OF h1 h2, of "[PStr ''Trees'' \<mapsto> True]"] c
  have a: "display_progress two_topics [PStr ''Trees'' \<mapsto> True] = Inr (1 / 2)" by simp
  from display_progress_fraction [OF h1 h2, of Map.empty] d
  have b: "display_progress two_topics Map.empty = Inr 0" by simp
  from h1 h2 a b show ?thesis by simp
qed

end
